theory Spec2Isabelle
  imports Complex_Main "HOL-Library.Sublist"
begin

section \<open>Python exceptions as values\<close>

text \<open>
  Every \<^verbatim>\<open>raise\<close> of the modelled code is a value of this type. The first five
  constructors are subclasses of Python's \<^verbatim>\<open>Exception\<close>; \<open>BaseExc\<close> stands for a
  \<^verbatim>\<open>BaseException\<close> that is not an \<^verbatim>\<open>Exception\<close> (\<^verbatim>\<open>KeyboardInterrupt\<close>,
  \<^verbatim>\<open>SystemExit\<close>), which an \<^verbatim>\<open>except Exception\<close> clause does not catch.
\<close>

datatype py_error =
    ValueError string
  | RuntimeError string
  | NotImplementedError string
  | AssertionError string
  | IndexError string
  | OtherException string
  | BaseExc string

fun is_Exception :: "py_error \<Rightarrow> bool" where
  "is_Exception (BaseExc m) = False"
| "is_Exception e = True"

fun str_of :: "py_error \<Rightarrow> string" where
  "str_of (ValueError m) = m"
| "str_of (RuntimeError m) = m"
| "str_of (NotImplementedError m) = m"
| "str_of (AssertionError m) = m"
| "str_of (IndexError m) = m"
| "str_of (OtherException m) = m"
| "str_of (BaseExc m) = m"

section \<open>\<^verbatim>\<open>fully_shard\<close>: the auto-wrap policy check\<close>

text \<open>
  \<^verbatim>\<open>torch/distributed/_composable/fully_shard.py\<close>. The \<^verbatim>\<open>policy\<close> argument is any
  Python object or \<^verbatim>\<open>None\<close>; \<open>FSDPPolicy p\<close> is an instance of \<^verbatim>\<open>_FSDPPolicy\<close>
  and \<open>OtherObject s\<close> any other object, with \<open>s\<close> what \<^verbatim>\<open>str\<close> prints for it.
\<close>

datatype 'p policy_obj = FSDPPolicy 'p | OtherObject string

fun isinstance_FSDPPolicy :: "'p policy_obj \<Rightarrow> bool" where
  "isinstance_FSDPPolicy (FSDPPolicy p) = True"
| "isinstance_FSDPPolicy (OtherObject s) = False"

fun str_policy :: "'p policy_obj \<Rightarrow> string" where
  "str_policy (FSDPPolicy p) = ''_FSDPPolicy''"
| "str_policy (OtherObject s) = s"

text \<open>
  The calls of the body after the check, in source order. Their code lives in
  \<^verbatim>\<open>_init_utils\<close>, \<^verbatim>\<open>_runtime_utils\<close>, \<^verbatim>\<open>_wrap_utils\<close> and other modules, so
  the model takes their effect on the composable state as the parameter \<open>run\<close>.
\<close>

datatype init_step =
    InitIgnoredModuleStates
  | InitDeviceHandle
  | AnnotateModulesForDynamo
  | InitProcessGroupState
  | AutoWrap
  | InitCoreState
  | InitRuntimeState
  | InitPrefetchingState
  | InitBufferState
  | InitParamHandleFromModule
  | InitStateDictState
  | RegisterAllStateDictHooks
  | RegisterPreForwardHooks
  | RegisterPostForwardHooks
  | RegisterRootPreForwardHook
  | InsertModuleState

record 'st fs_world =
  api_usage :: "string list"
  steps_run :: "init_step list"
  fsdp_state :: 'st

definition log_api_usage_once :: "string \<Rightarrow> 'st fs_world \<Rightarrow> 'st fs_world" where
  "log_api_usage_once key w =
     (if key \<in> set (api_usage w) then w else w\<lparr>api_usage := api_usage w @ [key]\<rparr>)"

fun run_steps ::
  "(init_step \<Rightarrow> 'st \<Rightarrow> py_error + 'st) \<Rightarrow> init_step list \<Rightarrow> 'st fs_world
     \<Rightarrow> py_error option \<times> 'st fs_world" where
  "run_steps run [] w = (None, w)"
| "run_steps run (s # ss) w =
     (case run s (fsdp_state w) of
        Inl e \<Rightarrow> (Some e, w\<lparr>steps_run := steps_run w @ [s]\<rparr>)
      | Inr st' \<Rightarrow> run_steps run ss (w\<lparr>steps_run := steps_run w @ [s], fsdp_state := st'\<rparr>))"

definition fully_shard_steps :: "'p policy_obj option \<Rightarrow> init_step list" where
  "fully_shard_steps policy =
     [InitIgnoredModuleStates, InitDeviceHandle, AnnotateModulesForDynamo, InitProcessGroupState]
     @ (if policy \<noteq> None then [AutoWrap] else [])
     @ [InitCoreState, InitRuntimeState, InitPrefetchingState, InitBufferState,
        InitParamHandleFromModule, InitStateDictState, RegisterAllStateDictHooks,
        RegisterPreForwardHooks, RegisterPostForwardHooks, RegisterRootPreForwardHook,
        InsertModuleState]"

definition policy_check :: "'p policy_obj option \<Rightarrow> py_error option" where
  "policy_check policy =
     (case policy of
        None \<Rightarrow> None
      | Some p \<Rightarrow>
          if \<not> isinstance_FSDPPolicy p
          then Some (ValueError (''Expects an `_FSDPPolicy` but got '' @ str_policy p))
          else None)"

definition fully_shard ::
  "(init_step \<Rightarrow> 'st \<Rightarrow> py_error + 'st) \<Rightarrow> 'p policy_obj option \<Rightarrow> 'st fs_world
     \<Rightarrow> py_error option \<times> 'st fs_world" where
  "fully_shard run policy w0 =
     (let w = log_api_usage_once ''torch.distributed.fully_shard'' w0 in
      case policy_check policy of
        Some e \<Rightarrow> (Some e, w)
      | None \<Rightarrow> run_steps run (fully_shard_steps policy) w)"

section \<open>FSDP module state\<close>

text \<open>
  \<^verbatim>\<open>torch/distributed/fsdp/fully_sharded_data_parallel.py\<close>. Modules are objects on
  the Python heap; the model names them by a number and keeps their attributes in a store.
  Only the attributes read or written by \<^verbatim>\<open>no_sync\<close> and
  \<^verbatim>\<open>_wait_for_post_backward\<close> are kept; everything else (streams, execution-order
  data, process groups) is the component \<open>ext\<close>, which only the helpers imported from
  other modules touch.
\<close>

text \<open>
  Modelled from the spec: the enumeration \<^verbatim>\<open>TrainingState\<close> is declared in
  \<^verbatim>\<open>_common_utils\<close>; the spec's data model lists its values.
\<close>

datatype training_state = IDLE | FORWARD | BACKWARD_PRE | BACKWARD_POST | SUMMON_FULL_PARAMS

fun str_training_state :: "training_state \<Rightarrow> string" where
  "str_training_state IDLE = ''TrainingState.IDLE''"
| "str_training_state FORWARD = ''TrainingState.FORWARD''"
| "str_training_state BACKWARD_PRE = ''TrainingState.BACKWARD_PRE''"
| "str_training_state BACKWARD_POST = ''TrainingState.BACKWARD_POST''"
| "str_training_state SUMMON_FULL_PARAMS = ''TrainingState.SUMMON_FULL_PARAMS''"

text \<open>\<^verbatim>\<open>HandleTrainingState\<close>: only \<^verbatim>\<open>IDLE\<close> is named in this file.\<close>

datatype handle_training_state = HandleIDLE | HandleBusy nat

type_synonym mid = nat

text \<open>
  A \<^verbatim>\<open>FlatParamHandle\<close> with its \<^verbatim>\<open>flat_param\<close>. An attribute that may be absent
  (\<^verbatim>\<open>hasattr\<close>) is an option; \<open>post_backward_hook_state\<close> keeps the length of the tuple.
\<close>

record flat_param_handle =
  flat_param_data_ptr :: nat
  local_shard_data_ptr :: nat
  requires_grad :: bool
  post_backward_hook_state :: "nat option"
  post_backward_called :: "bool option"
  handle_training_state :: handle_training_state

record fsdp_module =
  is_fsdp :: bool
  is_root :: "bool option"
  rank :: nat
  sync_gradients :: bool
  training_state :: training_state
  handles :: "flat_param_handle list"
  ran_pre_backward_hook :: "nat list"
  handles_prefetched :: "nat list"
  post_backward_callback_queued :: bool
  cpu_offload_params :: bool
  module_str :: string

text \<open>
  \<open>descendants w m\<close> is what \<^verbatim>\<open>m.modules()\<close> yields after \<open>m\<close> itself
  (\<^verbatim>\<open>nn.Module.modules\<close> yields the module first and every module once).
\<close>

record 'x world =
  mods :: "mid \<Rightarrow> fsdp_module"
  descendants :: "mid \<Rightarrow> mid list"
  stdout :: "string list"
  ext :: 'x

definition modules :: "'x world \<Rightarrow> mid \<Rightarrow> mid list" where
  "modules w m = m # descendants w m"

definition fsdp_modules :: "'x world \<Rightarrow> mid \<Rightarrow> mid list" where
  "fsdp_modules w m = filter (\<lambda>s. is_fsdp (mods w s)) (modules w m)"

definition print :: "string \<Rightarrow> 'x world \<Rightarrow> 'x world" where
  "print s w = w\<lparr>stdout := stdout w @ [s]\<rparr>"

definition upd_mod :: "mid \<Rightarrow> (fsdp_module \<Rightarrow> fsdp_module) \<Rightarrow> 'x world \<Rightarrow> 'x world" where
  "upd_mod m f w = w\<lparr>mods := (mods w)(m := f (mods w m))\<rparr>"

subsection \<open>\<^verbatim>\<open>_assert_state\<close>\<close>

definition str_states :: "training_state list \<Rightarrow> string" where
  "str_states sts = ''['' @ concat (map (\<lambda>s. str_training_state s @ '', '') sts) @ '']''"

definition assert_state ::
  "training_state list \<Rightarrow> mid \<Rightarrow> 'x world \<Rightarrow> py_error option \<times> 'x world" where
  "assert_state sts self w =
     (if training_state (mods w self) \<notin> set sts then
        (let msg = ''expected to be in states '' @ str_states sts @ '' but current state is ''
                     @ str_training_state (training_state (mods w self));
             w' = (if rank (mods w self) = 0
                   then print (''ERROR: '' @ msg)
                          (print (''Asserting FSDP instance is: '' @ module_str (mods w self)) w)
                   else w)
         in (Some (ValueError msg), w'))
      else (None, w))"

subsection \<open>\<^verbatim>\<open>no_sync\<close>\<close>

text \<open>
  The context manager is a generator: the code before \<^verbatim>\<open>yield\<close> is \<open>no_sync_enter\<close>,
  the \<^verbatim>\<open>finally\<close> block is \<open>no_sync_exit\<close>, and \<open>with_no_sync\<close> is the statement
  \<^verbatim>\<open>with self.no_sync(): body\<close>. The body is any state transformer that may raise.
  \<^verbatim>\<open>_lazy_init\<close> comes from \<^verbatim>\<open>_runtime_utils\<close> and is the parameter \<open>lazy_init\<close>.
\<close>

fun save_and_clear_flags :: "mid list \<Rightarrow> 'x world \<Rightarrow> (mid \<times> bool) list \<times> 'x world" where
  "save_and_clear_flags [] w = ([], w)"
| "save_and_clear_flags (m # ms) w =
     (if is_fsdp (mods w m) then
        (case save_and_clear_flags ms (upd_mod m (\<lambda>r. r\<lparr>sync_gradients := False\<rparr>) w) of
           (old, w') \<Rightarrow> ((m, sync_gradients (mods w m)) # old, w'))
      else save_and_clear_flags ms w)"

definition no_sync_not_root_msg :: string where
  "no_sync_not_root_msg =
     ''`no_sync()` on inner FSDP instances is not supported. Please call `no_sync()` on root FSDP module.''"

definition no_sync_enter ::
  "(mid \<Rightarrow> mid \<Rightarrow> 'x world \<Rightarrow> py_error option \<times> 'x world) \<Rightarrow> mid \<Rightarrow> 'x world
     \<Rightarrow> (py_error \<times> 'x world) + ((mid \<times> bool) list \<times> 'x world)" where
  "no_sync_enter lazy_init self w =
     (case lazy_init self self w of
        (Some e, w1) \<Rightarrow> Inl (e, w1)
      | (None, w1) \<Rightarrow>
          if is_root (mods w1 self) \<noteq> Some True
          then Inl (RuntimeError no_sync_not_root_msg, w1)
          else (case assert_state [IDLE] self w1 of
                  (Some e, w2) \<Rightarrow> Inl (e, w2)
                | (None, w2) \<Rightarrow> Inr (save_and_clear_flags (modules w2 self) w2)))"

definition no_sync_assert_msg :: string where
  "no_sync_assert_msg =
     ''`_sync_gradients` was incorrectly set to `True` while in the `no_sync()` context manager''"

fun no_sync_exit :: "(mid \<times> bool) list \<Rightarrow> 'x world \<Rightarrow> py_error option \<times> 'x world" where
  "no_sync_exit [] w = (None, w)"
| "no_sync_exit ((m, old_flag) # rest) w =
     (if sync_gradients (mods w m)
      then (Some (AssertionError no_sync_assert_msg), w)
      else no_sync_exit rest (upd_mod m (\<lambda>r. r\<lparr>sync_gradients := old_flag\<rparr>) w))"

definition with_no_sync ::
  "(mid \<Rightarrow> mid \<Rightarrow> 'x world \<Rightarrow> py_error option \<times> 'x world) \<Rightarrow> mid
     \<Rightarrow> ('x world \<Rightarrow> py_error option \<times> 'x world) \<Rightarrow> 'x world \<Rightarrow> py_error option \<times> 'x world" where
  "with_no_sync lazy_init self body w =
     (case no_sync_enter lazy_init self w of
        Inl (e, w') \<Rightarrow> (Some e, w')
      | Inr (old_flags, w1) \<Rightarrow>
          (case body w1 of
             (eb, w2) \<Rightarrow>
               (case no_sync_exit old_flags w2 of
                  (Some e, w3) \<Rightarrow> (Some e, w3)
                | (None, w3) \<Rightarrow> (eb, w3))))"

subsection \<open>A small module tree, used to run the model\<close>

definition example_module :: "bool \<Rightarrow> bool option \<Rightarrow> bool \<Rightarrow> fsdp_module" where
  "example_module f r s =
     \<lparr>is_fsdp = f, is_root = r, rank = 0, sync_gradients = s, training_state = IDLE,
      handles = [], ran_pre_backward_hook = [], handles_prefetched = [],
      post_backward_callback_queued = False, cpu_offload_params = False,
      module_str = ''FSDP''\<rparr>"

definition example_world :: "unit world" where
  "example_world =
     \<lparr>mods = (\<lambda>m. if m = 0 then example_module True (Some True) True
                  else if m = 1 then example_module True (Some False) False
                  else example_module False None True),
      descendants = (\<lambda>m. if m = 0 then [1, 2] else []),
      stdout = [], ext = ()\<rparr>"

text \<open>
  A root with two nested FSDP modules, all synchronising gradients, and a body that
  switches the synchronisation of module 1 back on inside the context.
\<close>

definition three_fsdp_world :: "unit world" where
  "three_fsdp_world =
     \<lparr>mods = (\<lambda>m. if m = 0 then example_module True (Some True) True
                  else example_module True (Some False) True),
      descendants = (\<lambda>m. if m = 0 then [1, 2] else []),
      stdout = [], ext = ()\<rparr>"

definition body_sets_flag :: "unit world \<Rightarrow> py_error option \<times> unit world" where
  "body_sets_flag w = (None, upd_mod 1 (\<lambda>r. r\<lparr>sync_gradients := True\<rparr>) w)"

subsection \<open>\<^verbatim>\<open>_wait_for_post_backward\<close>\<close>

text \<open>
  A handle is named by its module and its position in that module's \<^verbatim>\<open>_handles\<close>.
  The helpers imported from \<^verbatim>\<open>_runtime_utils\<close>, the methods of the handle and of the
  streams are parameters, collected in one record; each may change the whole state and
  the fallible ones may raise.
\<close>

type_synonym handle_ref = "mid \<times> nat"

record 'x runtime_utils =
  wait_stream_post_backward :: "'x world \<Rightarrow> 'x world"
  synchronize_current_stream :: "'x world \<Rightarrow> 'x world"
  exec_order_next_iter :: "'x world \<Rightarrow> 'x world"
  should_free_in_backward :: "mid \<Rightarrow> handle_ref \<Rightarrow> 'x world \<Rightarrow> py_error + bool"
  reshard :: "mid \<Rightarrow> handle_ref list \<Rightarrow> bool list \<Rightarrow> 'x world \<Rightarrow> py_error option \<times> 'x world"
  remove_post_backward_hook :: "handle_ref \<Rightarrow> 'x world \<Rightarrow> 'x world"
  prepare_gradient_for_optim :: "handle_ref \<Rightarrow> 'x world \<Rightarrow> py_error option \<times> 'x world"
  param_exec_order_second_iter :: "mid \<Rightarrow> 'x world \<Rightarrow> py_error option \<times> 'x world"

text \<open>
  Modelled from the spec: \<^verbatim>\<open>p_assert\<close> is defined in \<^verbatim>\<open>fsdp/_utils.py\<close>; the spec
  calls it an assertion-style failure report. When the condition fails it prints the
  message and raises \<^verbatim>\<open>AssertionError\<close> unless \<^verbatim>\<open>raise_assertion_error=False\<close>.
\<close>

definition p_assert :: "bool \<Rightarrow> string \<Rightarrow> bool \<Rightarrow> 'x world \<Rightarrow> py_error option \<times> 'x world" where
  "p_assert cond s raise_assertion_error w =
     (if \<not> cond
      then (if raise_assertion_error then Some (AssertionError s) else None, print s w)
      else (None, w))"

definition upd_handle ::
  "handle_ref \<Rightarrow> (flat_param_handle \<Rightarrow> flat_param_handle) \<Rightarrow> 'x world \<Rightarrow> 'x world" where
  "upd_handle r f w =
     upd_mod (fst r) (\<lambda>m. m\<lparr>handles := (handles m)[snd r := f (handles m ! snd r)]\<rparr>) w"

text \<open>The loop of the \<^verbatim>\<open>try\<close> block: the handles that are not yet resharded.\<close>

fun handles_to_reshard ::
  "'x runtime_utils \<Rightarrow> mid \<Rightarrow> nat list \<Rightarrow> 'x world
     \<Rightarrow> py_error + (handle_ref list \<times> bool list)" where
  "handles_to_reshard rt m [] w = Inr ([], [])"
| "handles_to_reshard rt m (i # is) w =
     (let handle = handles (mods w m) ! i;
          already_resharded = (flat_param_data_ptr handle = local_shard_data_ptr handle)
      in if already_resharded then handles_to_reshard rt m is w
         else (case should_free_in_backward rt m (m, i) w of
                 Inl e \<Rightarrow> Inl e
               | Inr free \<Rightarrow>
                   (case handles_to_reshard rt m is w of
                      Inl e \<Rightarrow> Inl e
                    | Inr (hs, fs) \<Rightarrow> Inr ((m, i) # hs, free # fs))))"

text \<open>
  The handles of a module whose flat parameter does not point at its local shard, in the
  order of \<^verbatim>\<open>_handles\<close>: those the catch-all reshard has to reshard.
\<close>

definition unsharded_handles :: "'x world \<Rightarrow> mid \<Rightarrow> handle_ref list" where
  "unsharded_handles w m =
     map (Pair m)
       (filter (\<lambda>i. flat_param_data_ptr (handles (mods w m) ! i)
                      \<noteq> local_shard_data_ptr (handles (mods w m) ! i))
          [0..<length (handles (mods w m))])"

text \<open>The body of the \<^verbatim>\<open>try\<close> block of \<^verbatim>\<open>_catch_all_reshard\<close>.\<close>

definition reshard_try ::
  "'x runtime_utils \<Rightarrow> mid \<Rightarrow> mid \<Rightarrow> 'x world \<Rightarrow> py_error option \<times> 'x world" where
  "reshard_try rt self fsdp_module w =
     (case handles_to_reshard rt fsdp_module [0..<length (handles (mods w fsdp_module))] w of
        Inl e \<Rightarrow> (Some e, w)
      | Inr (hs, fs) \<Rightarrow> reshard rt self hs fs w)"

definition reshard_failure_msg :: "'x world \<Rightarrow> mid \<Rightarrow> py_error \<Rightarrow> string" where
  "reshard_failure_msg w fsdp_module e =
     ''Got exception while resharding module '' @ module_str (mods w fsdp_module)
       @ '': '' @ str_of e"

definition catch_all_reshard ::
  "'x runtime_utils \<Rightarrow> mid \<Rightarrow> mid \<Rightarrow> 'x world \<Rightarrow> py_error option \<times> 'x world" where
  "catch_all_reshard rt self fsdp_module w =
     (case reshard_try rt self fsdp_module w of
        (None, w') \<Rightarrow> (None, w')
      | (Some e, w') \<Rightarrow>
          if is_Exception e
          then (case p_assert False (reshard_failure_msg w' fsdp_module e) False w' of
                  (Some a, w'') \<Rightarrow> (Some a, w'')
                | (None, w'') \<Rightarrow> (Some e, w''))
          else (Some e, w'))"

fun finalize_handles ::
  "'x runtime_utils \<Rightarrow> mid \<Rightarrow> mid \<Rightarrow> nat list \<Rightarrow> 'x world \<Rightarrow> py_error option \<times> 'x world" where
  "finalize_handles rt self m [] w = (None, w)"
| "finalize_handles rt self m (i # is) w =
     (let p = handles (mods w m) ! i in
      if \<not> requires_grad p then finalize_handles rt self m is w
      else
        (case (case post_backward_hook_state p of
                 None \<Rightarrow> (None, w)
               | Some n \<Rightarrow>
                   (case p_assert (n = 2) ''p._post_backward_hook_state fields are not valid.'' True w of
                      (Some e, w1) \<Rightarrow> (Some e, w1)
                    | (None, w1) \<Rightarrow>
                        (None, upd_handle (m, i) (\<lambda>h. h\<lparr>post_backward_hook_state := None\<rparr>)
                                 (remove_post_backward_hook rt (m, i) w1)))) of
           (Some e, w2) \<Rightarrow> (Some e, w2)
         | (None, w2) \<Rightarrow>
             if \<not> sync_gradients (mods w2 self) then finalize_handles rt self m is w2
             else
               (case prepare_gradient_for_optim rt (m, i) w2 of
                  (Some e, w3) \<Rightarrow> (Some e, w3)
                | (None, w3) \<Rightarrow>
                    (case p_assert (post_backward_called (handles (mods w3 m) ! i) \<noteq> None)
                            ''Expected flag _post_backward_called to be set on param.'' True w3 of
                       (Some e, w4) \<Rightarrow> (Some e, w4)
                     | (None, w4) \<Rightarrow>
                         finalize_handles rt self m is
                           (upd_handle (m, i) (\<lambda>h. h\<lparr>post_backward_called := Some False\<rparr>) w4)))))"

definition finalize_params ::
  "'x runtime_utils \<Rightarrow> mid \<Rightarrow> mid \<Rightarrow> 'x world \<Rightarrow> py_error option \<times> 'x world" where
  "finalize_params rt self m w =
     finalize_handles rt self m [0..<length (handles (mods w m))] w"

definition reset_module :: "mid \<Rightarrow> mid \<Rightarrow> 'x world \<Rightarrow> 'x world" where
  "reset_module self m w =
     (let w1 = upd_mod m (\<lambda>r. r\<lparr>ran_pre_backward_hook := [],
                               training_state := IDLE,
                               handles := map (\<lambda>h. h\<lparr>handle_training_state := HandleIDLE\<rparr>) (handles r),
                               handles_prefetched := []\<rparr>) w
      in if is_root (mods w1 m) = Some True
         then upd_mod self (\<lambda>r. r\<lparr>post_backward_callback_queued := False\<rparr>) w1
         else w1)"

text \<open>The \<^verbatim>\<open>for m in self.fsdp_modules(self)\<close> loop.\<close>

fun wait_loop ::
  "'x runtime_utils \<Rightarrow> mid \<Rightarrow> mid list \<Rightarrow> 'x world \<Rightarrow> py_error option \<times> 'x world" where
  "wait_loop rt self [] w = (None, w)"
| "wait_loop rt self (m # ms) w =
     (case catch_all_reshard rt self m w of
        (Some e, w1) \<Rightarrow> (Some e, w1)
      | (None, w1) \<Rightarrow>
          (case finalize_params rt self m w1 of
             (Some e, w2) \<Rightarrow> (Some e, w2)
           | (None, w2) \<Rightarrow> wait_loop rt self ms (reset_module self m w2)))"

text \<open>The statements before the loop, once the assertion on the root has passed.\<close>

definition before_loop :: "'x runtime_utils \<Rightarrow> mid \<Rightarrow> 'x world \<Rightarrow> 'x world" where
  "before_loop rt self w =
     exec_order_next_iter rt
       (if sync_gradients (mods w self)
        then (let w1 = wait_stream_post_backward rt w
              in if cpu_offload_params (mods w1 self) then synchronize_current_stream rt w1 else w1)
        else w)"

definition wait_for_post_backward ::
  "'x runtime_utils \<Rightarrow> mid \<Rightarrow> 'x world \<Rightarrow> py_error option \<times> 'x world" where
  "wait_for_post_backward rt self w =
     (if is_root (mods w self) \<noteq> Some True
      then (Some (AssertionError ''_wait_for_post_backward can only be called on root.''), w)
      else
        (let w0 = before_loop rt self w in
         case wait_loop rt self (fsdp_modules w0 self) w0 of
           (Some e, w1) \<Rightarrow> (Some e, w1)
         | (None, w1) \<Rightarrow> param_exec_order_second_iter rt self w1))"

subsection \<open>A runtime whose reshard fails on one module\<close>

definition example_handle :: flat_param_handle where
  "example_handle =
     \<lparr>flat_param_data_ptr = 10, local_shard_data_ptr = 20, requires_grad = False,
      post_backward_hook_state = None, post_backward_called = None,
      handle_training_state = HandleBusy 1\<rparr>"

definition example_runtime :: "unit runtime_utils" where
  "example_runtime =
     \<lparr>wait_stream_post_backward = (\<lambda>w. w),
      synchronize_current_stream = (\<lambda>w. w),
      exec_order_next_iter = (\<lambda>w. w),
      should_free_in_backward = (\<lambda>m h w. Inr True),
      reshard = (\<lambda>self hs fs w.
                   if (1, 0) \<in> set hs then (Some (RuntimeError ''device error''), w)
                   else (None, w)),
      remove_post_backward_hook = (\<lambda>h w. w),
      prepare_gradient_for_optim = (\<lambda>h w. (None, w)),
      param_exec_order_second_iter = (\<lambda>m w. (None, w))\<rparr>"

definition example_world_unsharded :: "unit world" where
  "example_world_unsharded = upd_mod 1 (\<lambda>r. r\<lparr>handles := [example_handle]\<rparr>) example_world"

section \<open>Placements, meshes and specs\<close>

text \<open>
  Modelled from the spec: the placement classes are declared in
  \<^verbatim>\<open>placement_types.py\<close>; the spec gives the variants \<^verbatim>\<open>Replicate\<close>,
  \<^verbatim>\<open>Shard(dim)\<close> and \<^verbatim>\<open>StridedShard(dim, split_factor)\<close>. A device mesh is kept
  as the list of its dimension sizes.
\<close>

datatype placement = Replicate | Shard nat | StridedShard nat nat

type_synonym device_mesh = "nat list"

record tensor_meta =
  tm_shape :: "nat list"
  tm_stride :: "nat list"
  tm_dtype :: string

record dtensor_spec =
  mesh :: device_mesh
  placements :: "placement list"
  tensor_meta :: "tensor_meta option"

section \<open>The sharding propagator\<close>

text \<open>
  \<^verbatim>\<open>torch/distributed/_tensor/sharding_prop.py\<close>. The classes of \<^verbatim>\<open>op_schema.py\<close>
  (\<^verbatim>\<open>OpSchema\<close>, \<^verbatim>\<open>OutputSharding\<close>, \<^verbatim>\<open>PlacementStrategy\<close>, \<^verbatim>\<open>OpStrategy\<close>,
  \<^verbatim>\<open>TupleStrategy\<close>) are data declarations; they are modelled with the fields this
  file reads and writes. Redistribute costs are Python floats; the model uses exact
  rationals for them.
\<close>

text \<open>
  An operator: its name, and for each declared return whether it is a tensor.
\<close>

record op_overload =
  op_name :: string
  op_returns :: "bool list"

text \<open>
  An argument of a schema: a \<^verbatim>\<open>DTensorSpec\<close>; a list (\<open>False\<close>) or tuple
  (\<open>True\<close>) of \<^verbatim>\<open>DTensorSpec\<close>s, possibly empty; or any other value, kept as text.
\<close>

datatype arg = SpecArg dtensor_spec | SeqArg bool "dtensor_spec list" | PlainArg string

record op_schema =
  op :: op_overload
  args_schema :: "arg list"
  kwargs_schema :: "(string \<times> arg) list"
  has_symints :: bool

type_synonym cost = rat

record placement_strategy =
  ps_output_spec :: dtensor_spec
  input_specs :: "dtensor_spec list option"
  redistribute_cost :: "cost list list option"

datatype strategy =
    OpStrategy "placement_strategy list"
  | TupleStrategy bool "strategy list"
  | UnsupportedStrategy string

datatype strategy_arg = StrategyArg strategy | RawArg arg

record strategy_schema =
  s_op :: op_overload
  s_args_schema :: "strategy_arg list"
  s_kwargs_schema :: "(string \<times> strategy_arg) list"

datatype output_spec_type =
    OutNone
  | OutSpec dtensor_spec
  | OutSeq bool "dtensor_spec option list"

record output_sharding =
  output_spec :: output_spec_type
  schema_suggestions :: "op_schema list option"
  failed_reason :: "string option"
  needs_redistribute :: bool

definition OutputSharding ::
  "output_spec_type \<Rightarrow> op_schema list option \<Rightarrow> output_sharding" where
  "OutputSharding spec suggestions =
     \<lparr>output_spec = spec, schema_suggestions = suggestions, failed_reason = None,
      needs_redistribute = False\<rparr>"

definition PlacementStrategy :: "dtensor_spec \<Rightarrow> placement_strategy" where
  "PlacementStrategy spec =
     \<lparr>ps_output_spec = spec, input_specs = None, redistribute_cost = None\<rparr>"

text \<open>What running the operator on fake tensors returns.\<close>

datatype fake_item = FakeTensor tensor_meta | FakeNonTensor

datatype fake_out = FakeOne tensor_meta | FakeSeq bool "fake_item list" | FakeOther

datatype meta_out = MetaNone | MetaOne tensor_meta | MetaSeq bool "tensor_meta list"

datatype invocation =
    StrategyCall op_overload device_mesh strategy_schema
  | RuleCall op_overload op_schema

text \<open>
  The propagator's registries, and what it uses from other modules: the fake-tensor run
  of the operator, the methods of \<^verbatim>\<open>OpSchema\<close> (\<^verbatim>\<open>__str__\<close>, the computation of
  \<^verbatim>\<open>has_symints\<close> in the constructor, \<^verbatim>\<open>_inplace_rewrap_schema_suggestion\<close>).
\<close>

record propagator =
  op_to_rules :: "op_overload \<rightharpoonup> (op_schema \<Rightarrow> py_error + output_sharding)"
  op_strategy_funcs :: "op_overload \<rightharpoonup> (device_mesh \<Rightarrow> strategy_schema \<Rightarrow> py_error + strategy)"
  skip_prop_list :: "op_overload list"
  run_fake :: "op_schema \<Rightarrow> py_error + fake_out"
  str_schema :: "op_schema \<Rightarrow> string"
  symints_in :: "arg list \<Rightarrow> bool"
  inplace_rewrap_schema_suggestion :: "op_schema \<Rightarrow> op_schema \<Rightarrow> op_schema"

definition OpSchema ::
  "propagator \<Rightarrow> op_overload \<Rightarrow> arg list \<Rightarrow> (string \<times> arg) list \<Rightarrow> op_schema" where
  "OpSchema env opr args kwargs =
     \<lparr>op = opr, args_schema = args, kwargs_schema = kwargs, has_symints = symints_in env args\<rparr>"

text \<open>\<^verbatim>\<open>OpSchema.args_spec\<close>: the \<^verbatim>\<open>DTensorSpec\<close>s among the positional arguments.\<close>

fun args_spec_of :: "arg list \<Rightarrow> dtensor_spec list" where
  "args_spec_of [] = []"
| "args_spec_of (SpecArg s # as) = s # args_spec_of as"
| "args_spec_of (a # as) = args_spec_of as"

definition args_spec :: "op_schema \<Rightarrow> dtensor_spec list" where
  "args_spec sch = args_spec_of (args_schema sch)"

text \<open>
  Modelled from the spec: \<^verbatim>\<open>OpSchema.return_type_tuple_tensors\<close> is absent; the spec
  speaks of an operator that returns a tuple of tensors.
\<close>

definition return_type_tuple_tensors :: "op_schema \<Rightarrow> bool" where
  "return_type_tuple_tensors sch =
     (case op_returns (op sch) of [] \<Rightarrow> False | r # rs \<Rightarrow> rs \<noteq> [] \<and> r)"

subsection \<open>\<^verbatim>\<open>_propagate_tensor_meta\<close>\<close>

fun tensor_metas_of :: "fake_item list \<Rightarrow> tensor_meta list" where
  "tensor_metas_of [] = []"
| "tensor_metas_of (FakeTensor m # xs) = m # tensor_metas_of xs"
| "tensor_metas_of (FakeNonTensor # xs) = tensor_metas_of xs"

definition propagate_tensor_meta :: "propagator \<Rightarrow> op_schema \<Rightarrow> py_error + meta_out" where
  "propagate_tensor_meta env sch =
     (case run_fake env sch of
        Inl e \<Rightarrow> Inl e
      | Inr (FakeOne m) \<Rightarrow> Inr (MetaOne m)
      | Inr (FakeSeq is_tuple xs) \<Rightarrow> Inr (MetaSeq is_tuple (tensor_metas_of xs))
      | Inr FakeOther \<Rightarrow> Inr MetaNone)"

subsection \<open>\<^verbatim>\<open>_wrap_output_spec_tensor_meta\<close>\<close>

text \<open>
  The method writes \<^verbatim>\<open>tensor_meta\<close> into the specs; the model returns the updated
  output spec. In the sequence case the source's test
  \<^verbatim>\<open>isinstance(output_tensor_meta, (tuple, list) or len(...) != len(...))\<close> only tests
  that the metadata is a sequence, so a short sequence fails at the index. The counts
  that the source interpolates into the messages are left out of them.
\<close>

fun wrap_seq ::
  "nat \<Rightarrow> dtensor_spec option list \<Rightarrow> tensor_meta list \<Rightarrow> py_error + dtensor_spec option list" where
  "wrap_seq i [] ms = Inr []"
| "wrap_seq i (None # specs) ms =
     (case wrap_seq (Suc i) specs ms of Inl e \<Rightarrow> Inl e | Inr r \<Rightarrow> Inr (None # r))"
| "wrap_seq i (Some spec # specs) ms =
     (if i < length ms
      then (case wrap_seq (Suc i) specs ms of
              Inl e \<Rightarrow> Inl e
            | Inr r \<Rightarrow> Inr (Some (spec\<lparr>tensor_meta := Some (ms ! i)\<rparr>) # r))
      else Inl (IndexError ''tuple index out of range''))"

definition wrap_output_spec_tensor_meta ::
  "op_overload \<Rightarrow> output_spec_type \<Rightarrow> meta_out \<Rightarrow> py_error + output_spec_type" where
  "wrap_output_spec_tensor_meta opr spec meta =
     (case spec of
        OutSpec s \<Rightarrow>
          (case meta of
             MetaOne m \<Rightarrow> Inr (OutSpec (s\<lparr>tensor_meta := Some m\<rparr>))
           | MetaNone \<Rightarrow>
               Inl (ValueError
                 ''ShardingPropagator error: output does not have an associated TensorMeta'')
           | MetaSeq t ms \<Rightarrow>
               Inl (ValueError (''For the op '' @ op_name opr
                 @ '', `output_spec` has 1 output which does not equal the number of op outputs'')))
      | OutSeq t specs \<Rightarrow>
          (case meta of
             MetaSeq t' ms \<Rightarrow>
               (case wrap_seq 0 specs ms of Inl e \<Rightarrow> Inl e | Inr r \<Rightarrow> Inr (OutSeq t r))
           | _ \<Rightarrow>
               Inl (ValueError (''For the op '' @ op_name opr
                 @ '', `output_spec` has outputs which does not equal the number of op outputs'')))
      | OutNone \<Rightarrow> Inr OutNone)"

subsection \<open>\<^verbatim>\<open>_select_strategy\<close>\<close>

fun strategy_costs :: "placement_strategy list \<Rightarrow> py_error + cost list" where
  "strategy_costs [] = Inr []"
| "strategy_costs (strtg # rest) =
     (case redistribute_cost strtg of
        None \<Rightarrow> Inl (AssertionError ''must set redistribute cost each strategy!'')
      | Some c \<Rightarrow>
          (case strategy_costs rest of
             Inl e \<Rightarrow> Inl e
           | Inr cs \<Rightarrow> Inr (sum_list (concat c) # cs)))"

text \<open>Python's \<^verbatim>\<open>min\<close> of a non-empty list and \<^verbatim>\<open>list.index\<close> of a member.\<close>

fun py_min :: "cost \<Rightarrow> cost list \<Rightarrow> cost" where
  "py_min m [] = m"
| "py_min m (c # cs) = py_min (if c < m then c else m) cs"

fun py_index :: "cost list \<Rightarrow> cost \<Rightarrow> nat" where
  "py_index [] v = 0"
| "py_index (c # cs) v = (if c = v then 0 else Suc (py_index cs v))"

definition select_strategy :: "placement_strategy list \<Rightarrow> py_error + placement_strategy" where
  "select_strategy strategies =
     (if length strategies = 1 then Inr (strategies ! 0)
      else (case strategy_costs strategies of
              Inl e \<Rightarrow> Inl e
            | Inr [] \<Rightarrow> Inl (ValueError ''min() arg is an empty sequence'')
            | Inr (c # cs) \<Rightarrow> Inr (strategies ! py_index (c # cs) (py_min c cs))))"

subsection \<open>\<^verbatim>\<open>propagate_op_sharding_non_cached\<close>\<close>

text \<open>
  The result is paired with the calls made to the registered strategy function or rule,
  in order: registered functions are arbitrary callables, so how often they run is part
  of the behaviour.
\<close>

fun map_err :: "('a \<Rightarrow> py_error + 'b) \<Rightarrow> 'a list \<Rightarrow> py_error + 'b list" where
  "map_err f [] = Inr []"
| "map_err f (x # xs) =
     (case f x of
        Inl e \<Rightarrow> Inl e
      | Inr y \<Rightarrow> (case map_err f xs of Inl e \<Rightarrow> Inl e | Inr ys \<Rightarrow> Inr (y # ys)))"

definition index_error :: "bool \<Rightarrow> py_error" where
  "index_error is_tuple =
     IndexError (if is_tuple then ''tuple index out of range'' else ''list index out of range'')"

text \<open>The loop that looks for the mesh; \<^verbatim>\<open>arg[0]\<close> of an empty sequence raises.\<close>

fun find_mesh :: "arg list \<Rightarrow> py_error + device_mesh option" where
  "find_mesh [] = Inr None"
| "find_mesh (SpecArg s # as) = Inr (Some (mesh s))"
| "find_mesh (SeqArg t [] # as) = Inl (index_error t)"
| "find_mesh (SeqArg t (s # ss) # as) = Inr (Some (mesh s))"
| "find_mesh (PlainArg v # as) = find_mesh as"

fun spec_to_strategy :: "arg \<Rightarrow> py_error + strategy_arg" where
  "spec_to_strategy (SpecArg s) = Inr (StrategyArg (OpStrategy [PlacementStrategy s]))"
| "spec_to_strategy (SeqArg t []) = Inl (index_error t)"
| "spec_to_strategy (SeqArg t (s # ss)) =
     Inr (StrategyArg (TupleStrategy t (map (\<lambda>x. OpStrategy [PlacementStrategy x]) (s # ss))))"
| "spec_to_strategy (PlainArg v) = Inr (RawArg (PlainArg v))"

definition kw_to_strategy :: "string \<times> arg \<Rightarrow> py_error + (string \<times> strategy_arg)" where
  "kw_to_strategy kv =
     (case spec_to_strategy (snd kv) of Inl e \<Rightarrow> Inl e | Inr v \<Rightarrow> Inr (fst kv, v))"

text \<open>
  The loop over \<^verbatim>\<open>op_schema.args_spec\<close> of the single-strategy branch: the expected
  input specs and \<^verbatim>\<open>needs_redistribute\<close>.
\<close>

definition desired_spec :: "placement_strategy \<Rightarrow> nat \<Rightarrow> py_error + dtensor_spec" where
  "desired_spec output_strategy idx =
     (case input_specs output_strategy of
        None \<Rightarrow> Inr (ps_output_spec output_strategy)
      | Some specs \<Rightarrow>
          if idx < length specs then Inr (specs ! idx)
          else Inl (IndexError ''list index out of range''))"

fun expected_inputs ::
  "placement_strategy \<Rightarrow> nat \<Rightarrow> dtensor_spec list \<Rightarrow> py_error + (dtensor_spec list \<times> bool)" where
  "expected_inputs output_strategy idx [] = Inr ([], False)"
| "expected_inputs output_strategy idx (input_spec # rest) =
     (case desired_spec output_strategy idx of
        Inl e \<Rightarrow> Inl e
      | Inr desired \<Rightarrow>
          (case expected_inputs output_strategy (Suc idx) rest of
             Inl e \<Rightarrow> Inl e
           | Inr (ds, nr) \<Rightarrow>
               Inr (desired # ds, placements input_spec \<noteq> placements desired \<or> nr)))"

definition single_strategy_sharding ::
  "propagator \<Rightarrow> op_schema \<Rightarrow> placement_strategy list \<Rightarrow> py_error + output_sharding" where
  "single_strategy_sharding env sch strategies =
     (case select_strategy strategies of
        Inl e \<Rightarrow> Inl e
      | Inr output_strategy \<Rightarrow>
          (case expected_inputs output_strategy 0 (args_spec sch) of
             Inl e \<Rightarrow> Inl e
           | Inr (expected_input_specs, needs) \<Rightarrow>
               Inr \<lparr>output_spec =
                      (if return_type_tuple_tensors sch
                       then OutSeq True (replicate (length (op_returns (op sch)))
                                          (Some (ps_output_spec output_strategy)))
                       else OutSpec (ps_output_spec output_strategy)),
                    schema_suggestions =
                      (if needs
                       then Some [inplace_rewrap_schema_suggestion env
                                    (OpSchema env (op sch) (map SpecArg expected_input_specs) [])
                                    sch]
                       else None),
                    failed_reason = None,
                    needs_redistribute = needs\<rparr>))"

text \<open>The tuple-strategy branch.\<close>

fun select_children :: "strategy list \<Rightarrow> py_error + dtensor_spec list" where
  "select_children [] = Inr []"
| "select_children (OpStrategy ss # rest) =
     (case select_strategy ss of
        Inl e \<Rightarrow> Inl e
      | Inr output_strategy \<Rightarrow>
          (case select_children rest of
             Inl e \<Rightarrow> Inl e
           | Inr specs \<Rightarrow> Inr (ps_output_spec output_strategy # specs)))"
| "select_children (other # rest) = Inl (AssertionError [])"

fun tuple_suggestion_args ::
  "dtensor_spec list \<Rightarrow> arg list \<Rightarrow> py_error + (arg list \<times> bool)" where
  "tuple_suggestion_args out_spec_list [] = Inr ([], False)"
| "tuple_suggestion_args out_spec_list (SeqArg t [] # rest) = Inl (index_error t)"
| "tuple_suggestion_args out_spec_list (SeqArg t (s # ss) # rest) =
     (if length (s # ss) \<le> length out_spec_list
      then (case tuple_suggestion_args out_spec_list rest of
              Inl e \<Rightarrow> Inl e
            | Inr (as, nr) \<Rightarrow>
                Inr (SeqArg t (take (length (s # ss)) out_spec_list) # as,
                     map placements (s # ss) \<noteq> map placements (take (length (s # ss)) out_spec_list)
                       \<or> nr))
      else Inl (IndexError ''list index out of range''))"
| "tuple_suggestion_args out_spec_list (SpecArg s # rest) =
     (case out_spec_list of
        [] \<Rightarrow> Inl (IndexError ''list index out of range'')
      | expected # other \<Rightarrow>
          (case tuple_suggestion_args out_spec_list rest of
             Inl e \<Rightarrow> Inl e
           | Inr (as, nr) \<Rightarrow>
               Inr (SpecArg expected # as, placements s \<noteq> placements expected \<or> nr)))"
| "tuple_suggestion_args out_spec_list (PlainArg v # rest) =
     (case tuple_suggestion_args out_spec_list rest of
        Inl e \<Rightarrow> Inl e
      | Inr (as, nr) \<Rightarrow> Inr (PlainArg v # as, nr))"

definition tuple_strategy_sharding ::
  "propagator \<Rightarrow> op_schema \<Rightarrow> meta_out \<Rightarrow> bool \<Rightarrow> strategy list \<Rightarrow> py_error + output_sharding" where
  "tuple_strategy_sharding env sch out_tensor_meta t childs =
     (case select_children childs of
        Inl e \<Rightarrow> Inl e
      | Inr out_spec_list \<Rightarrow>
          (case tuple_suggestion_args out_spec_list (args_schema sch) of
             Inl e \<Rightarrow> Inl e
           | Inr (suggestion_args, needs) \<Rightarrow>
               Inr \<lparr>output_spec =
                      (if out_tensor_meta \<noteq> MetaNone
                       then OutSeq True (map Some out_spec_list) else OutNone),
                    schema_suggestions =
                      (if needs
                       then Some [OpSchema env (op sch) suggestion_args (kwargs_schema sch)]
                       else None),
                    failed_reason = None,
                    needs_redistribute = needs\<rparr>))"

definition wrap_sharding ::
  "op_schema \<Rightarrow> meta_out \<Rightarrow> output_sharding \<Rightarrow> py_error + output_sharding" where
  "wrap_sharding sch out_tensor_meta output_sharding =
     (case wrap_output_spec_tensor_meta (op sch) (output_spec output_sharding) out_tensor_meta of
        Inl e \<Rightarrow> Inl e
      | Inr spec \<Rightarrow> Inr (output_sharding\<lparr>output_spec := spec\<rparr>))"

definition strategy_sharding ::
  "propagator \<Rightarrow> op_schema \<Rightarrow> meta_out \<Rightarrow> strategy \<Rightarrow> py_error + output_sharding" where
  "strategy_sharding env sch out_tensor_meta op_strategy =
     (case (case op_strategy of
              OpStrategy strategies \<Rightarrow> single_strategy_sharding env sch strategies
            | TupleStrategy t childs \<Rightarrow> tuple_strategy_sharding env sch out_tensor_meta t childs
            | UnsupportedStrategy s \<Rightarrow> Inl (ValueError ''Unsupported op strategy type'')) of
        Inl e \<Rightarrow> Inl e
      | Inr output_sharding \<Rightarrow> wrap_sharding sch out_tensor_meta output_sharding)"

definition strategy_path ::
  "propagator \<Rightarrow> op_schema \<Rightarrow> (device_mesh \<Rightarrow> strategy_schema \<Rightarrow> py_error + strategy)
     \<Rightarrow> meta_out \<Rightarrow> (py_error + output_sharding) \<times> invocation list" where
  "strategy_path env sch strategy_func out_tensor_meta =
     (case find_mesh (args_schema sch) of
        Inl e \<Rightarrow> (Inl e, [])
      | Inr None \<Rightarrow> (Inl (AssertionError (''Cannot find mesh for op '' @ op_name (op sch))), [])
      | Inr (Some m) \<Rightarrow>
          (case map_err spec_to_strategy (args_schema sch) of
             Inl e \<Rightarrow> (Inl e, [])
           | Inr args_op_strategy \<Rightarrow>
               (case map_err kw_to_strategy (kwargs_schema sch) of
                  Inl e \<Rightarrow> (Inl e, [])
                | Inr kwargs_op_strategy \<Rightarrow>
                    (let strategy_schema =
                           \<lparr>s_op = op sch, s_args_schema = args_op_strategy,
                            s_kwargs_schema = kwargs_op_strategy\<rparr>
                     in (case strategy_func m strategy_schema of
                           Inl e \<Rightarrow> Inl e
                         | Inr op_strategy \<Rightarrow> strategy_sharding env sch out_tensor_meta op_strategy,
                         [StrategyCall (op sch) m strategy_schema])))))"

text \<open>The rule branch.\<close>

definition rule_error :: "propagator \<Rightarrow> op_schema \<Rightarrow> py_error \<Rightarrow> py_error" where
  "rule_error env sch e =
     (case e of
        NotImplementedError m \<Rightarrow> e
      | BaseExc m \<Rightarrow> e
      | _ \<Rightarrow> RuntimeError (''Sharding propagation failed on op '' @ str_schema env sch
                @ ''.'' @ [CHR 0x0A] @ ''Error: '' @ str_of e))"

definition rule_failed_msg :: "propagator \<Rightarrow> op_schema \<Rightarrow> string \<Rightarrow> string" where
  "rule_failed_msg env sch reason =
     ''Sharding propagation failed on op '' @ str_schema env sch @ ''!'' @ ''Failed reason: ''
       @ reason"

definition rule_retry ::
  "propagator \<Rightarrow> op_schema \<Rightarrow> (op_schema \<Rightarrow> py_error + output_sharding) \<Rightarrow> output_sharding
     \<Rightarrow> (py_error + output_sharding) \<times> invocation list" where
  "rule_retry env sch sharding_prop_func output_sharding =
     (if output_spec output_sharding = OutNone then
        (case schema_suggestions output_sharding of
           None \<Rightarrow>
             (case failed_reason output_sharding of
                Some reason \<Rightarrow> (Inl (RuntimeError (rule_failed_msg env sch reason)), [])
              | None \<Rightarrow> (Inr output_sharding, []))
         | Some [] \<Rightarrow> (Inl (IndexError ''list index out of range''), [])
         | Some (suggested_input_schema # other) \<Rightarrow>
             (case sharding_prop_func suggested_input_schema of
                Inl e \<Rightarrow> Inl e
              | Inr propagation_res \<Rightarrow>
                  Inr (output_sharding\<lparr>output_spec := output_spec propagation_res,
                                       needs_redistribute := True\<rparr>),
              [RuleCall (op sch) suggested_input_schema]))
      else (Inr output_sharding, []))"

definition rule_path ::
  "propagator \<Rightarrow> op_schema \<Rightarrow> (op_schema \<Rightarrow> py_error + output_sharding) \<Rightarrow> meta_out
     \<Rightarrow> (py_error + output_sharding) \<times> invocation list" where
  "rule_path env sch sharding_prop_func out_tensor_meta =
     (case sharding_prop_func sch of
        Inl e \<Rightarrow> (Inl (rule_error env sch e), [RuleCall (op sch) sch])
      | Inr output_sharding \<Rightarrow>
          (case rule_retry env sch sharding_prop_func output_sharding of
             (Inl e, calls) \<Rightarrow> (Inl e, RuleCall (op sch) sch # calls)
           | (Inr output_sharding', calls) \<Rightarrow>
               (wrap_sharding sch out_tensor_meta output_sharding',
                RuleCall (op sch) sch # calls)))"

definition propagate_op_sharding_non_cached ::
  "propagator \<Rightarrow> op_schema \<Rightarrow> (py_error + output_sharding) \<times> invocation list" where
  "propagate_op_sharding_non_cached env sch =
     (if op sch \<in> set (skip_prop_list env)
      then (Inr (OutputSharding OutNone (Some [sch])), [])
      else
        (case propagate_tensor_meta env sch of
           Inl e \<Rightarrow> (Inl e, [])
         | Inr out_tensor_meta \<Rightarrow>
             (case op_strategy_funcs env (op sch) of
                Some strategy_func \<Rightarrow> strategy_path env sch strategy_func out_tensor_meta
              | None \<Rightarrow>
                  (case op_to_rules env (op sch) of
                     Some sharding_prop_func \<Rightarrow>
                       rule_path env sch sharding_prop_func out_tensor_meta
                   | None \<Rightarrow>
                       (Inl (NotImplementedError (''Operator '' @ op_name (op sch)
                          @ '' does not have a sharding strategy registered.'')), [])))))"

subsection \<open>\<^verbatim>\<open>propagate\<close> and the memoised \<^verbatim>\<open>propagate_op_sharding\<close>\<close>

text \<open>
  \<^verbatim>\<open>lru_cache(None)\<close> is an unbounded memo table keyed by the schema; a call that
  raises stores nothing. The state keeps the table and the calls made so far to
  registered functions.
\<close>

record prop_state =
  cache :: "op_schema \<rightharpoonup> output_sharding"
  invocations :: "invocation list"

record op_info =
  schema :: op_schema
  info_output_sharding :: "output_sharding option"

definition propagate_op_sharding ::
  "propagator \<Rightarrow> op_schema \<Rightarrow> prop_state \<Rightarrow> (py_error + output_sharding) \<times> prop_state" where
  "propagate_op_sharding env sch st =
     (case cache st sch of
        Some hit \<Rightarrow> (Inr hit, st)
      | None \<Rightarrow>
          (case propagate_op_sharding_non_cached env sch of
             (Inl e, calls) \<Rightarrow> (Inl e, st\<lparr>invocations := invocations st @ calls\<rparr>)
           | (Inr res, calls) \<Rightarrow>
               (Inr res, st\<lparr>cache := (cache st)(sch \<mapsto> res),
                            invocations := invocations st @ calls\<rparr>)))"

definition propagate ::
  "propagator \<Rightarrow> op_info \<Rightarrow> prop_state \<Rightarrow> py_error option \<times> op_info \<times> prop_state" where
  "propagate env info st =
     (case (if has_symints (schema info)
            then (case propagate_op_sharding_non_cached env (schema info) of
                    (r, calls) \<Rightarrow> (r, st\<lparr>invocations := invocations st @ calls\<rparr>))
            else propagate_op_sharding env (schema info) st) of
        (Inl e, st') \<Rightarrow> (Some e, info, st')
      | (Inr res, st') \<Rightarrow> (None, info\<lparr>info_output_sharding := Some res\<rparr>, st'))"


subsection \<open>A propagator with one strategy function and two rules\<close>

definition example_meta :: tensor_meta where
  "example_meta = \<lparr>tm_shape = [4], tm_stride = [1], tm_dtype = ''float32''\<rparr>"

definition spec_replicate :: dtensor_spec where
  "spec_replicate = \<lparr>mesh = [2], placements = [Replicate], tensor_meta = None\<rparr>"

definition spec_shard :: dtensor_spec where
  "spec_shard = \<lparr>mesh = [2], placements = [Shard 0], tensor_meta = None\<rparr>"

definition op_add :: op_overload where
  "op_add = \<lparr>op_name = ''aten.add.Tensor'', op_returns = [True]\<rparr>"

definition op_mm :: op_overload where
  "op_mm = \<lparr>op_name = ''aten.mm.default'', op_returns = [True]\<rparr>"

definition op_silent :: op_overload where
  "op_silent = \<lparr>op_name = ''aten.silent.default'', op_returns = [True]\<rparr>"

text \<open>Three candidates; the second and the third tie on the minimal summed cost.\<close>

definition add_strategies :: "placement_strategy list" where
  "add_strategies =
     [\<lparr>ps_output_spec = spec_replicate, input_specs = Some [spec_replicate, spec_replicate],
       redistribute_cost = Some [[0], [1]]\<rparr>,
      \<lparr>ps_output_spec = spec_shard, input_specs = Some [spec_shard, spec_shard],
       redistribute_cost = Some [[1 / 2], [0]]\<rparr>,
      \<lparr>ps_output_spec = spec_shard, input_specs = None,
       redistribute_cost = Some [[1 / 4, 1 / 4], [0]]\<rparr>]"

text \<open>
  A rule that has an output spec only when every input is sharded on dimension 0, and
  otherwise suggests that schema; and a rule that returns nothing at all.
\<close>

definition mm_rule :: "op_schema \<Rightarrow> py_error + output_sharding" where
  "mm_rule sch =
     (if list_all (\<lambda>s. placements s = [Shard 0]) (args_spec sch)
      then Inr (OutputSharding (OutSpec spec_shard) None)
      else Inr (OutputSharding OutNone
                  (Some [sch\<lparr>args_schema := map (\<lambda>s. SpecArg spec_shard) (args_spec sch)\<rparr>])))"

definition silent_rule :: "op_schema \<Rightarrow> py_error + output_sharding" where
  "silent_rule sch = Inr (OutputSharding OutNone None)"

definition example_propagator :: propagator where
  "example_propagator =
     \<lparr>op_to_rules = [op_mm \<mapsto> mm_rule, op_silent \<mapsto> silent_rule],
      op_strategy_funcs = [op_add \<mapsto> (\<lambda>m s. Inr (OpStrategy add_strategies))],
      skip_prop_list = [],
      run_fake = (\<lambda>sch. Inr (FakeOne example_meta)),
      str_schema = (\<lambda>sch. op_name (op sch)),
      symints_in = (\<lambda>args. False),
      inplace_rewrap_schema_suggestion = (\<lambda>suggestion origin. suggestion)\<rparr>"

definition add_schema :: op_schema where
  "add_schema =
     \<lparr>op = op_add, args_schema = [SpecArg spec_replicate, SpecArg spec_shard],
      kwargs_schema = [], has_symints = False\<rparr>"

definition mm_schema :: op_schema where
  "mm_schema =
     \<lparr>op = op_mm, args_schema = [SpecArg spec_shard, SpecArg spec_shard],
      kwargs_schema = [], has_symints = False\<rparr>"

definition mm_schema_replicated :: op_schema where
  "mm_schema_replicated =
     \<lparr>op = op_mm, args_schema = [SpecArg spec_replicate, SpecArg spec_shard],
      kwargs_schema = [], has_symints = False\<rparr>"

definition silent_schema :: op_schema where
  "silent_schema =
     \<lparr>op = op_silent, args_schema = [SpecArg spec_replicate],
      kwargs_schema = [], has_symints = False\<rparr>"

definition empty_prop_state :: prop_state where
  "empty_prop_state = \<lparr>cache = Map.empty, invocations = []\<rparr>"

section \<open>Local shapes and offsets\<close>

text \<open>
  Modelled from the spec: \<^verbatim>\<open>compute_local_shape\<close> and
  \<^verbatim>\<open>compute_local_shape_and_global_offset\<close> are defined in
  \<^verbatim>\<open>torch/distributed/_tensor/_utils.py\<close>, of which only the tests
  (\<^verbatim>\<open>test/distributed/_tensor/test_utils.py\<close>) are at hand. The definitions follow
  section 4.1 of the spec. The rank is given by its coordinate on every mesh dimension.
\<close>

text \<open>
  Modelled from the spec: the size of the shard of the rank with coordinate \<open>coord\<close> when
  a dimension of size \<open>sz\<close> is divided over a mesh dimension of size \<open>n\<close>: the remainder
  goes to the lowest coordinates.
\<close>

definition local_shard_size :: "nat \<Rightarrow> nat \<Rightarrow> nat \<Rightarrow> nat" where
  "local_shard_size sz n coord = sz div n + (if coord < sz mod n then 1 else 0)"

fun shard_dim :: "placement \<Rightarrow> nat option" where
  "shard_dim Replicate = None"
| "shard_dim (Shard d) = Some d"
| "shard_dim (StridedShard d k) = Some d"

text \<open>Modelled from the spec: what one mesh dimension does to the current shape.\<close>

definition shape_step :: "placement \<Rightarrow> nat \<Rightarrow> nat \<Rightarrow> nat list \<Rightarrow> nat list" where
  "shape_step p n coord cur =
     (case shard_dim p of
        None \<Rightarrow> cur
      | Some d \<Rightarrow> cur[d := local_shard_size (cur ! d) n coord])"

fun shape_steps :: "nat list \<Rightarrow> placement list \<Rightarrow> nat list \<Rightarrow> nat list \<Rightarrow> nat list" where
  "shape_steps cur (p # ps) (n # ns) (c # cs) = shape_steps (shape_step p n c cur) ps ns cs"
| "shape_steps cur ps ns cs = cur"

text \<open>
  Modelled from the spec: \<^verbatim>\<open>compute_local_shape(global_shape, mesh, placements)\<close>, for
  the rank at \<open>my_coordinate\<close>.
\<close>

definition compute_local_shape ::
  "nat list \<Rightarrow> device_mesh \<Rightarrow> nat list \<Rightarrow> placement list \<Rightarrow> nat list" where
  "compute_local_shape global_shape mesh_sizes my_coordinate pls =
     shape_steps global_shape pls mesh_sizes my_coordinate"

text \<open>
  Modelled from the spec: the scan that rejects a plain \<^verbatim>\<open>Shard(d)\<close> after the strided
  part for \<open>d\<close> has ended. A \<^verbatim>\<open>StridedShard(d)\<close> opens the strided part for \<open>d\<close>; the
  next plain \<^verbatim>\<open>Shard(d)\<close> ends it; a further plain \<^verbatim>\<open>Shard(d)\<close> is the violation.
\<close>

definition strided_part_ended_msg :: string where
  "strided_part_ended_msg =
     ''Strided sharding does not allow Shard() to appear after the strided part has ended.''"

fun strided_scan :: "nat set \<Rightarrow> nat set \<Rightarrow> placement list \<Rightarrow> py_error option" where
  "strided_scan seen ended [] = None"
| "strided_scan seen ended (Replicate # ps) = strided_scan seen ended ps"
| "strided_scan seen ended (StridedShard d k # ps) = strided_scan (insert d seen) ended ps"
| "strided_scan seen ended (Shard d # ps) =
     (if d \<in> ended then Some (NotImplementedError strided_part_ended_msg)
      else strided_scan seen (if d \<in> seen then insert d ended else ended) ps)"

text \<open>
  Modelled from the spec: the offset of the shard of coordinate \<open>coord\<close> inside the
  dimension it divides: the sizes of the shards of the lower coordinates, which is
  \<open>coord\<close> times the shard size when those are all of one size.
\<close>

definition local_shard_offset :: "nat \<Rightarrow> nat \<Rightarrow> nat \<Rightarrow> nat" where
  "local_shard_offset sz n coord = sum_list (map (local_shard_size sz n) [0..<coord])"

definition offset_step :: "placement \<Rightarrow> nat \<Rightarrow> nat \<Rightarrow> nat list \<Rightarrow> nat list \<Rightarrow> nat list" where
  "offset_step p n coord cur off =
     (case shard_dim p of
        None \<Rightarrow> off
      | Some d \<Rightarrow> off[d := off ! d + local_shard_offset (cur ! d) n coord])"

fun offset_steps ::
  "nat list \<Rightarrow> nat list \<Rightarrow> placement list \<Rightarrow> nat list \<Rightarrow> nat list \<Rightarrow> nat list" where
  "offset_steps cur off (p # ps) (n # ns) (c # cs) =
     offset_steps (shape_step p n c cur) (offset_step p n c cur off) ps ns cs"
| "offset_steps cur off ps ns cs = off"

fun is_strided :: "placement \<Rightarrow> bool" where
  "is_strided (StridedShard d k) = True"
| "is_strided p = False"

text \<open>
  Modelled from the spec: \<^verbatim>\<open>compute_local_shape_and_global_offset\<close>. The spec gives
  one rule for the offsets, the accumulation above. For a placement list with a
  \<^verbatim>\<open>StridedShard\<close> that rule does not give the offsets that
  \<^verbatim>\<open>test_fsdp_tp_meta_compute\<close> expects, and the spec has no other; for those lists the
  offsets are the parameter \<open>strided_offset\<close>.
\<close>

definition compute_local_shape_and_global_offset ::
  "(nat list \<Rightarrow> device_mesh \<Rightarrow> nat list \<Rightarrow> placement list \<Rightarrow> nat list)
     \<Rightarrow> nat list \<Rightarrow> device_mesh \<Rightarrow> nat list \<Rightarrow> placement list
     \<Rightarrow> py_error + (nat list \<times> nat list)" where
  "compute_local_shape_and_global_offset strided_offset global_shape mesh_sizes my_coordinate pls =
     (case strided_scan {} {} pls of
        Some e \<Rightarrow> Inl e
      | None \<Rightarrow>
          Inr (compute_local_shape global_shape mesh_sizes my_coordinate pls,
               if list_ex is_strided pls
               then strided_offset global_shape mesh_sizes my_coordinate pls
               else offset_steps global_shape (replicate (length global_shape) 0)
                      pls mesh_sizes my_coordinate))"

text \<open>
  A plain \<^verbatim>\<open>Shard(d)\<close> after the strided part for \<open>d\<close> has ended: the list holds,
  in this order, a \<^verbatim>\<open>StridedShard(d)\<close>, a \<^verbatim>\<open>Shard(d)\<close> and another \<^verbatim>\<open>Shard(d)\<close>.
\<close>

definition shard_after_strided_part_ended :: "placement list \<Rightarrow> bool" where
  "shard_after_strided_part_ended ps =
     (\<exists>xs ys zs ws d sf. ps = xs @ StridedShard d sf # ys @ Shard d # zs @ Shard d # ws)"

section \<open>Splitting a tensor over a mesh dimension and gathering it back\<close>

text \<open>
  Modelled from the spec: \<^verbatim>\<open>_split_tensor\<close> and \<^verbatim>\<open>_to_replicate_tensor\<close> are methods
  of the placement classes in \<^verbatim>\<open>placement_types.py\<close>, of which only the tests
  (\<^verbatim>\<open>TestStridedSharding\<close> in \<^verbatim>\<open>test_utils.py\<close>) are at hand. Both act along the
  placement's target dimension only, so a tensor is given by the list of its slices along
  that dimension. Chunk sizes follow the rule of \<open>local_shard_size\<close>. The padding
  information that \<^verbatim>\<open>_split_tensor\<close> also returns is left out: the spec gives no rule
  for it.
\<close>

fun split_sizes :: "nat list \<Rightarrow> 'a list \<Rightarrow> 'a list list" where
  "split_sizes [] xs = []"
| "split_sizes (s # ss) xs = take s xs # split_sizes ss (drop s xs)"

definition chunk_sizes :: "nat \<Rightarrow> nat \<Rightarrow> nat list" where
  "chunk_sizes sz n = map (local_shard_size sz n) [0..<n]"

text \<open>
  Modelled from the spec: for \<^verbatim>\<open>StridedShard\<close> with split factor \<open>k\<close> the tensor is
  cut into \<open>n * k\<close> contiguous blocks and the chunk of rank \<open>i\<close> is made of the blocks
  \<open>i\<close>, \<open>i + n\<close>, \<open>i + 2 n\<close>, ... as in the expected shards of
  \<^verbatim>\<open>test_1d_mesh_strided_sharding\<close> (\<^verbatim>\<open>[0, 4 | 1, 5 | 2, 6 | 3, 7]\<close> for 8 elements,
  4 ranks and split factor 2).
\<close>

definition interleave :: "nat \<Rightarrow> nat \<Rightarrow> (nat \<Rightarrow> 'b) \<Rightarrow> 'b list" where
  "interleave n k f = concat (map (\<lambda>i. map (\<lambda>j. f (i + j * n)) [0..<k]) [0..<n])"

fun split_tensor :: "placement \<Rightarrow> 'a list \<Rightarrow> nat \<Rightarrow> 'a list list option" where
  "split_tensor Replicate x n = None"
| "split_tensor (Shard d) x n = Some (split_sizes (chunk_sizes (length x) n) x)"
| "split_tensor (StridedShard d k) x n =
     (let blocks = split_sizes (chunk_sizes (length x) (n * k)) x
      in Some (map (\<lambda>i. concat (map (\<lambda>j. blocks ! (i + j * n)) [0..<k])) [0..<n]))"

text \<open>
  Modelled from the spec: \<^verbatim>\<open>_to_replicate_tensor\<close>, given the shards of all ranks of
  the mesh dimension in mesh order and the size of the logical dimension. The all-gather
  concatenates the shards; for \<^verbatim>\<open>StridedShard\<close> the gathered blocks are then put back
  into logical order.
\<close>

fun to_replicate_tensor :: "placement \<Rightarrow> 'a list list \<Rightarrow> nat \<Rightarrow> nat \<Rightarrow> 'a list option" where
  "to_replicate_tensor Replicate shards n logical_size = None"
| "to_replicate_tensor (Shard d) shards n logical_size = Some (concat shards)"
| "to_replicate_tensor (StridedShard d k) shards n logical_size =
     (let gathered = concat shards;
          sizes = chunk_sizes logical_size (n * k);
          pieces = split_sizes (interleave n k (\<lambda>m. sizes ! m)) gathered
      in Some (concat (map (\<lambda>m. pieces ! ((m mod n) * k + m div n)) [0..<n * k])))"

section \<open>Tensors, slices and local shards\<close>














section \<open>Theorems\<close>

text \<open>
  C8. \<^verbatim>\<open>fully_shard(module, policy=p)\<close> raises \<^verbatim>\<open>ValueError\<close> for every \<open>p\<close> that is
  neither \<^verbatim>\<open>None\<close> nor an \<^verbatim>\<open>_FSDPPolicy\<close>, before any step of wrapping or state
  initialisation has run (the composable state is the one passed in and the list of
  executed steps is unchanged); for \<^verbatim>\<open>None\<close> or an \<^verbatim>\<open>_FSDPPolicy\<close> the check raises
  nothing and the call is exactly the run of the remaining steps.
\<close>

theorem fully_shard_policy_check:
  "fully_shard run (Some (OtherObject s)) w =
     (Some (ValueError (''Expects an `_FSDPPolicy` but got '' @ s)),
      log_api_usage_once ''torch.distributed.fully_shard'' w)
   \<and> fsdp_state (snd (fully_shard run (Some (OtherObject s)) w)) = fsdp_state w
   \<and> steps_run (snd (fully_shard run (Some (OtherObject s)) w)) = steps_run w
   \<and> policy_check (None :: 'p policy_obj option) = None
   \<and> policy_check (Some (FSDPPolicy p)) = None
   \<and> fully_shard run (None :: 'p policy_obj option) w =
       run_steps run (fully_shard_steps (None :: 'p policy_obj option))
         (log_api_usage_once ''torch.distributed.fully_shard'' w)
   \<and> fully_shard run (Some (FSDPPolicy p)) w =
       run_steps run (fully_shard_steps (Some (FSDPPolicy p)))
         (log_api_usage_once ''torch.distributed.fully_shard'' w)"
  by (simp add: fully_shard_def policy_check_def log_api_usage_once_def Let_def)

subsection \<open>\<^verbatim>\<open>no_sync\<close>\<close>

lemma mods_upd_mod [simp]: "mods (upd_mod m f w) = (mods w)(m := f (mods w m))"
  by (simp add: upd_mod_def)

lemma descendants_upd_mod [simp]: "descendants (upd_mod m f w) = descendants w"
  by (simp add: upd_mod_def)

lemma save_and_clear_flags_mods:
  "save_and_clear_flags ms w = (old, w') \<Longrightarrow>
     mods w' = (\<lambda>m. if m \<in> set ms \<and> is_fsdp (mods w m)
                     then (mods w m)\<lparr>sync_gradients := False\<rparr> else mods w m)"
proof (induction ms arbitrary: w old w')
  case Nil
  then show ?case by auto
next
  case (Cons a ms)
  show ?case
  proof (cases "is_fsdp (mods w a)")
    case True
    let ?w1 = "upd_mod a (\<lambda>r. r\<lparr>sync_gradients := False\<rparr>) w"
    obtain o1 w1' where r: "save_and_clear_flags ms ?w1 = (o1, w1')"
      by (cases "save_and_clear_flags ms ?w1")
    with Cons.prems True have "w' = w1'" by simp
    from Cons.IH[OF r] this True show ?thesis
      by (auto simp: fun_eq_iff)
  next
    case False
    with Cons.prems have "save_and_clear_flags ms w = (old, w')" by simp
    from Cons.IH[OF this] False show ?thesis by (auto simp: fun_eq_iff)
  qed
qed

lemma save_and_clear_flags_old:
  "save_and_clear_flags ms w = (old, w') \<Longrightarrow> distinct ms \<Longrightarrow>
     old = map (\<lambda>m. (m, sync_gradients (mods w m))) (filter (\<lambda>m. is_fsdp (mods w m)) ms)"
proof (induction ms arbitrary: w old w')
  case Nil
  then show ?case by auto
next
  case (Cons a ms)
  show ?case
  proof (cases "is_fsdp (mods w a)")
    case True
    let ?w1 = "upd_mod a (\<lambda>r. r\<lparr>sync_gradients := False\<rparr>) w"
    obtain o1 w1' where r: "save_and_clear_flags ms ?w1 = (o1, w1')"
      by (cases "save_and_clear_flags ms ?w1")
    with Cons.prems True have o: "old = (a, sync_gradients (mods w a)) # o1" by simp
    from Cons.prems have d: "distinct ms" "a \<notin> set ms" by auto
    have "o1 = map (\<lambda>m. (m, sync_gradients (mods ?w1 m))) (filter (\<lambda>m. is_fsdp (mods ?w1 m)) ms)"
      using Cons.IH[OF r d(1)] .
    also have "\<dots> = map (\<lambda>m. (m, sync_gradients (mods w m))) (filter (\<lambda>m. is_fsdp (mods w m)) ms)"
      using d(2) by (intro arg_cong2[where f=map] ext filter_cong map_cong) (auto)
    finally show ?thesis using o True by simp
  next
    case False
    with Cons.prems have "save_and_clear_flags ms w = (old, w')" by simp
    from Cons.IH[OF this] Cons.prems False show ?thesis by auto
  qed
qed

lemma no_sync_exit_restores:
  "distinct (map fst old) \<Longrightarrow> \<forall>m \<in> fst ` set old. \<not> sync_gradients (mods w m) \<Longrightarrow>
   \<exists>w'. no_sync_exit old w = (None, w') \<and>
        mods w' = (\<lambda>m. case map_of old m of None \<Rightarrow> mods w m
                        | Some b \<Rightarrow> (mods w m)\<lparr>sync_gradients := b\<rparr>)
        \<and> descendants w' = descendants w \<and> stdout w' = stdout w \<and> ext w' = ext w"
proof (induction old arbitrary: w)
  case Nil
  then show ?case by simp
next
  case (Cons p old)
  obtain m b where p: "p = (m, b)" by (cases p)
  let ?w1 = "upd_mod m (\<lambda>r. r\<lparr>sync_gradients := b\<rparr>) w"
  from Cons.prems p have nm: "m \<notin> fst ` set old" and d: "distinct (map fst old)" by auto
  have "\<forall>k \<in> fst ` set old. \<not> sync_gradients (mods ?w1 k)"
    using Cons.prems(2) nm by auto
  from Cons.IH[OF d this] obtain w' where
    w': "no_sync_exit old ?w1 = (None, w')"
        "mods w' = (\<lambda>k. case map_of old k of None \<Rightarrow> mods ?w1 k
                        | Some b \<Rightarrow> (mods ?w1 k)\<lparr>sync_gradients := b\<rparr>)"
        "descendants w' = descendants ?w1" "stdout w' = stdout ?w1" "ext w' = ext ?w1"
    by blast
  have "map_of old m = None" using nm by (simp add: map_of_eq_None_iff)
  then have "mods w' = (\<lambda>k. case map_of (p # old) k of None \<Rightarrow> mods w k
                        | Some b \<Rightarrow> (mods w k)\<lparr>sync_gradients := b\<rparr>)"
    using w'(2) p by (auto simp: fun_eq_iff split: option.splits)
  moreover have "no_sync_exit (p # old) w = (None, w')"
    using w'(1) p Cons.prems(2) by simp
  ultimately show ?case using w'(3-5) by (simp add: upd_mod_def)
qed

lemma no_sync_exit_asserts:
  "distinct (map fst (pre @ (m, b) # post)) \<Longrightarrow>
   \<forall>k \<in> fst ` set pre. \<not> sync_gradients (mods w k) \<Longrightarrow> sync_gradients (mods w m) \<Longrightarrow>
   \<exists>w'. no_sync_exit (pre @ (m, b) # post) w = (Some (AssertionError no_sync_assert_msg), w')
        \<and> mods w' = (\<lambda>k. case map_of pre k of None \<Rightarrow> mods w k
                        | Some b \<Rightarrow> (mods w k)\<lparr>sync_gradients := b\<rparr>)"
proof (induction pre arbitrary: w)
  case Nil
  then show ?case by simp
next
  case (Cons p pre)
  obtain k c where p: "p = (k, c)" by (cases p)
  let ?w1 = "upd_mod k (\<lambda>r. r\<lparr>sync_gradients := c\<rparr>) w"
  from Cons.prems(1) p have nk: "k \<notin> fst ` set pre" "k \<noteq> m"
    and d: "distinct (map fst (pre @ (m, b) # post))" by auto
  have f: "\<forall>j \<in> fst ` set pre. \<not> sync_gradients (mods ?w1 j)"
    using Cons.prems(2) nk(1) by auto
  have t: "sync_gradients (mods ?w1 m)" using Cons.prems(3) nk(2) by simp
  from Cons.IH[OF d f t] obtain w' where
    w': "no_sync_exit (pre @ (m, b) # post) ?w1 = (Some (AssertionError no_sync_assert_msg), w')"
        "mods w' = (\<lambda>j. case map_of pre j of None \<Rightarrow> mods ?w1 j
                        | Some b \<Rightarrow> (mods ?w1 j)\<lparr>sync_gradients := b\<rparr>)"
    by blast
  have "map_of pre k = None" using nk(1) by (simp add: map_of_eq_None_iff)
  then have "mods w' = (\<lambda>j. case map_of (p # pre) j of None \<Rightarrow> mods w j
                        | Some b \<Rightarrow> (mods w j)\<lparr>sync_gradients := b\<rparr>)"
    using w'(2) p by (auto simp: fun_eq_iff split: option.splits)
  moreover have "no_sync_exit ((p # pre) @ (m, b) # post) w
                   = (Some (AssertionError no_sync_assert_msg), w')"
    using w'(1) p Cons.prems(2) by simp
  ultimately show ?case by blast
qed

text \<open>
  C10, as the code has it. \<^verbatim>\<open>no_sync()\<close> raises \<^verbatim>\<open>RuntimeError\<close> when entered on an
  instance that lazy initialisation has not made the root (the body does not run and the
  state is the one lazy initialisation left). On a root in state \<^verbatim>\<open>IDLE\<close>, every
  nested FSDP module's \<^verbatim>\<open>_sync_gradients\<close> is \<open>False\<close> when the body starts. When the
  body ends, normally or with an exception \<open>eb\<close>, with those flags still \<open>False\<close>, the
  statement ends the same way (\<open>eb\<close>) with every nested FSDP module's flag back at the
  value it had before entry, and nothing else changed by the exit. When the body ends
  with the flag of some nested FSDP module \<open>m\<close> set and those of the modules before it
  still \<open>False\<close>, the statement raises \<^verbatim>\<open>AssertionError\<close>: the modules before \<open>m\<close>
  have their flag back, \<open>m\<close> and the modules after it are left as the body left them.
\<close>

theorem no_sync_contract:
  assumes lazy: "lazy_init self self w = (None, w1)"
  shows "(is_root (mods w1 self) \<noteq> Some True \<longrightarrow>
            with_no_sync lazy_init self body w = (Some (RuntimeError no_sync_not_root_msg), w1))
       \<and> (is_root (mods w1 self) = Some True \<and> training_state (mods w1 self) = IDLE
            \<and> distinct (modules w1 self) \<longrightarrow>
           (\<exists>old w2. no_sync_enter lazy_init self w = Inr (old, w2)
              \<and> (\<forall>m \<in> set (fsdp_modules w1 self). \<not> sync_gradients (mods w2 m))
              \<and> (\<forall>eb w3. body w2 = (eb, w3)
                     \<and> (\<forall>m \<in> set (fsdp_modules w1 self). \<not> sync_gradients (mods w3 m)) \<longrightarrow>
                   (\<exists>w4. with_no_sync lazy_init self body w = (eb, w4)
                      \<and> (\<forall>m \<in> set (fsdp_modules w1 self).
                            sync_gradients (mods w4 m) = sync_gradients (mods w1 m))
                      \<and> (\<forall>m. m \<notin> set (fsdp_modules w1 self) \<longrightarrow> mods w4 m = mods w3 m)))
              \<and> (\<forall>eb w3 pre m post. body w2 = (eb, w3)
                     \<and> fsdp_modules w1 self = pre @ m # post
                     \<and> (\<forall>k \<in> set pre. \<not> sync_gradients (mods w3 k))
                     \<and> sync_gradients (mods w3 m) \<longrightarrow>
                   (\<exists>w4. with_no_sync lazy_init self body w
                            = (Some (AssertionError no_sync_assert_msg), w4)
                      \<and> (\<forall>k \<in> set pre.
                            sync_gradients (mods w4 k) = sync_gradients (mods w1 k))
                      \<and> (\<forall>k. k \<notin> set pre \<longrightarrow> mods w4 k = mods w3 k)))))"
proof (intro conjI impI)
  assume "is_root (mods w1 self) \<noteq> Some True"
  then show "with_no_sync lazy_init self body w = (Some (RuntimeError no_sync_not_root_msg), w1)"
    using lazy by (simp add: with_no_sync_def no_sync_enter_def)
next
  assume a: "is_root (mods w1 self) = Some True \<and> training_state (mods w1 self) = IDLE
            \<and> distinct (modules w1 self)"
  obtain old w2 where sc: "save_and_clear_flags (modules w1 self) w1 = (old, w2)"
    by (cases "save_and_clear_flags (modules w1 self) w1")
  have enter: "no_sync_enter lazy_init self w = Inr (old, w2)"
    using lazy a sc by (simp add: no_sync_enter_def assert_state_def)
  have m2: "mods w2 = (\<lambda>m. if m \<in> set (modules w1 self) \<and> is_fsdp (mods w1 m)
                     then (mods w1 m)\<lparr>sync_gradients := False\<rparr> else mods w1 m)"
    using save_and_clear_flags_mods[OF sc] .
  have old: "old = map (\<lambda>m. (m, sync_gradients (mods w1 m))) (fsdp_modules w1 self)"
    using save_and_clear_flags_old[OF sc] a by (simp add: fsdp_modules_def)
  have fst_old: "map fst old = fsdp_modules w1 self"
    by (simp add: old comp_def)
  have dist: "distinct (map fst old)"
    using a by (simp add: fst_old fsdp_modules_def)
  have in_ctx: "\<forall>m \<in> set (fsdp_modules w1 self). \<not> sync_gradients (mods w2 m)"
    by (simp add: m2 fsdp_modules_def)
  have exit: "\<exists>w4. with_no_sync lazy_init self body w = (eb, w4)
                      \<and> (\<forall>m \<in> set (fsdp_modules w1 self).
                            sync_gradients (mods w4 m) = sync_gradients (mods w1 m))
                      \<and> (\<forall>m. m \<notin> set (fsdp_modules w1 self) \<longrightarrow> mods w4 m = mods w3 m)"
    if b: "body w2 = (eb, w3) \<and> (\<forall>m \<in> set (fsdp_modules w1 self). \<not> sync_gradients (mods w3 m))"
    for eb w3
  proof -
    have "\<forall>m \<in> fst ` set old. \<not> sync_gradients (mods w3 m)"
      using b fst_old by (metis set_map)
    from no_sync_exit_restores[OF dist this] obtain w4 where
      w4: "no_sync_exit old w3 = (None, w4)"
          "mods w4 = (\<lambda>m. case map_of old m of None \<Rightarrow> mods w3 m
                        | Some b \<Rightarrow> (mods w3 m)\<lparr>sync_gradients := b\<rparr>)"
      by blast
    have r: "with_no_sync lazy_init self body w = (eb, w4)"
      using enter b w4(1) by (simp add: with_no_sync_def)
    have mo: "map_of old m = (if m \<in> set (fsdp_modules w1 self)
                              then Some (sync_gradients (mods w1 m)) else None)" for m
      by (simp add: old map_of_map_restrict restrict_map_def)
    show ?thesis using r by (auto simp: w4(2) mo)
  qed
  have fails: "\<exists>w4. with_no_sync lazy_init self body w
                            = (Some (AssertionError no_sync_assert_msg), w4)
                      \<and> (\<forall>k \<in> set pre.
                            sync_gradients (mods w4 k) = sync_gradients (mods w1 k))
                      \<and> (\<forall>k. k \<notin> set pre \<longrightarrow> mods w4 k = mods w3 k)"
    if b: "body w2 = (eb, w3) \<and> fsdp_modules w1 self = pre @ m # post
                     \<and> (\<forall>k \<in> set pre. \<not> sync_gradients (mods w3 k))
                     \<and> sync_gradients (mods w3 m)"
    for eb w3 pre m post
  proof -
    let ?f = "\<lambda>k. (k, sync_gradients (mods w1 k))"
    have split: "old = map ?f pre @ (m, sync_gradients (mods w1 m)) # map ?f post"
      using b by (simp add: old)
    have d: "distinct (map fst (map ?f pre @ (m, sync_gradients (mods w1 m)) # map ?f post))"
      using dist unfolding split .
    have f: "\<forall>k \<in> fst ` set (map ?f pre). \<not> sync_gradients (mods w3 k)"
      using b by (simp add: image_image)
    have t: "sync_gradients (mods w3 m)" using b by simp
    from no_sync_exit_asserts[OF d f t] obtain w4 where
      w4: "no_sync_exit old w3 = (Some (AssertionError no_sync_assert_msg), w4)"
          "mods w4 = (\<lambda>k. case map_of (map ?f pre) k of None \<Rightarrow> mods w3 k
                        | Some b \<Rightarrow> (mods w3 k)\<lparr>sync_gradients := b\<rparr>)"
      unfolding split by blast
    have r: "with_no_sync lazy_init self body w = (Some (AssertionError no_sync_assert_msg), w4)"
      using enter b w4(1) by (simp add: with_no_sync_def)
    have mo: "map_of (map ?f pre) k = (if k \<in> set pre
                              then Some (sync_gradients (mods w1 k)) else None)" for k
      by (simp add: map_of_map_restrict restrict_map_def)
    show ?thesis using r by (auto simp: w4(2) mo)
  qed
  show "\<exists>old w2. no_sync_enter lazy_init self w = Inr (old, w2)
              \<and> (\<forall>m \<in> set (fsdp_modules w1 self). \<not> sync_gradients (mods w2 m))
              \<and> (\<forall>eb w3. body w2 = (eb, w3)
                     \<and> (\<forall>m \<in> set (fsdp_modules w1 self). \<not> sync_gradients (mods w3 m)) \<longrightarrow>
                   (\<exists>w4. with_no_sync lazy_init self body w = (eb, w4)
                      \<and> (\<forall>m \<in> set (fsdp_modules w1 self).
                            sync_gradients (mods w4 m) = sync_gradients (mods w1 m))
                      \<and> (\<forall>m. m \<notin> set (fsdp_modules w1 self) \<longrightarrow> mods w4 m = mods w3 m)))
              \<and> (\<forall>eb w3 pre m post. body w2 = (eb, w3)
                     \<and> fsdp_modules w1 self = pre @ m # post
                     \<and> (\<forall>k \<in> set pre. \<not> sync_gradients (mods w3 k))
                     \<and> sync_gradients (mods w3 m) \<longrightarrow>
                   (\<exists>w4. with_no_sync lazy_init self body w
                            = (Some (AssertionError no_sync_assert_msg), w4)
                      \<and> (\<forall>k \<in> set pre.
                            sync_gradients (mods w4 k) = sync_gradients (mods w1 k))
                      \<and> (\<forall>k. k \<notin> set pre \<longrightarrow> mods w4 k = mods w3 k)))"
  proof (rule exI[of _ old], rule exI[of _ w2], intro conjI allI impI)
    show "no_sync_enter lazy_init self w = Inr (old, w2)" by (rule enter)
    show "\<forall>m \<in> set (fsdp_modules w1 self). \<not> sync_gradients (mods w2 m)" by (rule in_ctx)
  next
    fix eb w3
    assume "body w2 = (eb, w3)
              \<and> (\<forall>m \<in> set (fsdp_modules w1 self). \<not> sync_gradients (mods w3 m))"
    then show "\<exists>w4. with_no_sync lazy_init self body w = (eb, w4)
                      \<and> (\<forall>m \<in> set (fsdp_modules w1 self).
                            sync_gradients (mods w4 m) = sync_gradients (mods w1 m))
                      \<and> (\<forall>m. m \<notin> set (fsdp_modules w1 self) \<longrightarrow> mods w4 m = mods w3 m)"
      by (rule exit)
  next
    fix eb w3 pre m post
    assume "body w2 = (eb, w3) \<and> fsdp_modules w1 self = pre @ m # post
                     \<and> (\<forall>k \<in> set pre. \<not> sync_gradients (mods w3 k))
                     \<and> sync_gradients (mods w3 m)"
    then show "\<exists>w4. with_no_sync lazy_init self body w
                            = (Some (AssertionError no_sync_assert_msg), w4)
                      \<and> (\<forall>k \<in> set pre.
                            sync_gradients (mods w4 k) = sync_gradients (mods w1 k))
                      \<and> (\<forall>k. k \<notin> set pre \<longrightarrow> mods w4 k = mods w3 k)"
      by (rule fails)
  qed
qed

text \<open>
  A root with two nested FSDP modules, all three flags set before entry. The body sets
  the flag of module 1. The exit restores the flag of the root, raises
  \<^verbatim>\<open>AssertionError\<close> at module 1, and the flag of module 2 stays \<open>False\<close>: it is not
  back at the value it had before entry.
\<close>

theorem no_sync_flag_set_counterexample:
  "is_root (mods three_fsdp_world 0) = Some True
   \<and> fsdp_modules three_fsdp_world 0 = [0, 1, 2]
   \<and> sync_gradients (mods three_fsdp_world 2)
   \<and> fst (with_no_sync (\<lambda>a b w. (None, w)) 0 body_sets_flag three_fsdp_world)
       = Some (AssertionError no_sync_assert_msg)
   \<and> \<not> sync_gradients
         (mods (snd (with_no_sync (\<lambda>a b w. (None, w)) 0 body_sets_flag three_fsdp_world)) 2)"
  by (simp add: with_no_sync_def no_sync_enter_def assert_state_def modules_def fsdp_modules_def
      three_fsdp_world_def example_module_def body_sets_flag_def)

theorem no_sync_contract_witness:
  "\<exists>w4. with_no_sync (\<lambda>a b w. (None, w)) 0 (\<lambda>w. (Some (OtherException ''boom''), w)) example_world
           = (Some (OtherException ''boom''), w4)
        \<and> sync_gradients (mods w4 0) = True \<and> sync_gradients (mods w4 1) = False"
proof -
  let ?lazy = "\<lambda>(a::mid) (b::mid) (w::unit world). (None :: py_error option, w)"
  let ?body = "\<lambda>w::unit world. (Some (OtherException ''boom''), w)"
  have fm: "fsdp_modules example_world 0 = [0, 1]"
    by (simp add: fsdp_modules_def modules_def example_world_def example_module_def)
  have pre: "is_root (mods example_world 0) = Some True
             \<and> training_state (mods example_world 0) = IDLE
             \<and> distinct (modules example_world 0)"
    by (simp add: modules_def example_world_def example_module_def)
  have "?lazy 0 0 example_world = (None, example_world)" by simp
  note t = no_sync_contract[of ?lazy 0 example_world example_world ?body, OF this,
      THEN conjunct2, rule_format, OF pre]
  from t have "\<exists>w4. with_no_sync ?lazy 0 ?body example_world = (Some (OtherException ''boom''), w4)
      \<and> (\<forall>m \<in> set (fsdp_modules example_world 0).
            sync_gradients (mods w4 m) = sync_gradients (mods example_world m))"
  proof (elim exE conjE)
    fix old w2
    assume c: "\<forall>m \<in> set (fsdp_modules example_world 0). \<not> sync_gradients (mods w2 m)"
      and e: "\<forall>eb w3. ?body w2 = (eb, w3)
                     \<and> (\<forall>m \<in> set (fsdp_modules example_world 0). \<not> sync_gradients (mods w3 m)) \<longrightarrow>
                   (\<exists>w4. with_no_sync ?lazy 0 ?body example_world = (eb, w4)
                      \<and> (\<forall>m \<in> set (fsdp_modules example_world 0).
                            sync_gradients (mods w4 m) = sync_gradients (mods example_world m))
                      \<and> (\<forall>m. m \<notin> set (fsdp_modules example_world 0) \<longrightarrow> mods w4 m = mods w3 m))"
    have "?body w2 = (Some (OtherException ''boom''), w2)
            \<and> (\<forall>m \<in> set (fsdp_modules example_world 0). \<not> sync_gradients (mods w2 m))"
      using c by simp
    from e[rule_format, OF this] obtain w4 where
      "with_no_sync ?lazy 0 ?body example_world = (Some (OtherException ''boom''), w4)"
      "\<forall>m \<in> set (fsdp_modules example_world 0).
            sync_gradients (mods w4 m) = sync_gradients (mods example_world m)"
      by (elim exE conjE)
    then show ?thesis by (intro exI conjI)
  qed
  then obtain w4 where
    "with_no_sync ?lazy 0 ?body example_world = (Some (OtherException ''boom''), w4)"
    "\<forall>m \<in> set (fsdp_modules example_world 0).
        sync_gradients (mods w4 m) = sync_gradients (mods example_world m)"
    by (elim exE conjE)
  moreover have "sync_gradients (mods example_world 0) = True"
    "sync_gradients (mods example_world 1) = False"
    by (simp_all add: example_world_def example_module_def)
  ultimately show ?thesis
    by (simp add: fm)
qed

subsection \<open>\<^verbatim>\<open>_wait_for_post_backward\<close>\<close>

lemma catch_all_reshard_ok:
  "reshard_try rt self m w = (None, w') \<Longrightarrow> catch_all_reshard rt self m w = (None, w')"
  by (simp add: catch_all_reshard_def)

lemma catch_all_reshard_raises:
  "reshard_try rt self m w = (Some e, w') \<Longrightarrow>
     catch_all_reshard rt self m w =
       (Some e, if is_Exception e then print (reshard_failure_msg w' m e) w' else w')"
  by (simp add: catch_all_reshard_def p_assert_def)

lemma catch_all_reshard_None:
  "catch_all_reshard rt self m w = (None, w') \<Longrightarrow> reshard_try rt self m w = (None, w')"
  by (cases "reshard_try rt self m w")
     (auto simp: catch_all_reshard_def p_assert_def split: option.splits if_splits)

lemma wait_loop_append:
  "wait_loop rt self (pre @ post) w =
     (case wait_loop rt self pre w of
        (Some e, w1) \<Rightarrow> (Some e, w1)
      | (None, w1) \<Rightarrow> wait_loop rt self post w1)"
  by (induction pre arbitrary: w) (auto split: prod.splits option.splits)

lemma handles_to_reshard_Inr:
  "handles_to_reshard rt m is w = Inr (hs, fs) \<Longrightarrow>
     hs = map (Pair m)
            (filter (\<lambda>i. flat_param_data_ptr (handles (mods w m) ! i)
                           \<noteq> local_shard_data_ptr (handles (mods w m) ! i)) is)
     \<and> map (\<lambda>h. should_free_in_backward rt m h w) hs = map Inr fs"
  by (induction "is" arbitrary: hs fs)
    (auto simp: Let_def split: if_splits sum.splits prod.splits)

lemma handles_to_reshard_free:
  "map (\<lambda>h. should_free_in_backward rt m h w)
     (map (Pair m)
        (filter (\<lambda>i. flat_param_data_ptr (handles (mods w m) ! i)
                       \<noteq> local_shard_data_ptr (handles (mods w m) ! i)) is)) = map Inr fs \<Longrightarrow>
   handles_to_reshard rt m is w =
     Inr (map (Pair m)
            (filter (\<lambda>i. flat_param_data_ptr (handles (mods w m) ! i)
                           \<noteq> local_shard_data_ptr (handles (mods w m) ! i)) is), fs)"
  by (induction "is" arbitrary: fs)
    (auto simp: Let_def split: if_splits sum.splits prod.splits)

lemma reshard_try_reshard:
  assumes "map (\<lambda>h. should_free_in_backward rt m h w) (unsharded_handles w m) = map Inr fs"
  shows "reshard_try rt self m w = reshard rt self (unsharded_handles w m) fs w"
proof -
  have "handles_to_reshard rt m [0..<length (handles (mods w m))] w
          = Inr (unsharded_handles w m, fs)"
    using handles_to_reshard_free[of rt m w "[0..<length (handles (mods w m))]" fs] assms
    unfolding unsharded_handles_def by simp
  then show ?thesis by (simp add: reshard_try_def)
qed

lemma reshard_try_None:
  assumes "reshard_try rt self m w = (None, w2)"
  shows "\<exists>fs. map (\<lambda>h. should_free_in_backward rt m h w) (unsharded_handles w m) = map Inr fs
            \<and> reshard rt self (unsharded_handles w m) fs w = (None, w2)"
proof (cases "handles_to_reshard rt m [0..<length (handles (mods w m))] w")
  case (Inl e)
  with assms show ?thesis by (simp add: reshard_try_def)
next
  case (Inr r)
  obtain hs fs where r: "r = (hs, fs)" by (cases r)
  from Inr r have h: "handles_to_reshard rt m [0..<length (handles (mods w m))] w = Inr (hs, fs)"
    by simp
  from handles_to_reshard_Inr[OF h] have "hs = unsharded_handles w m"
    "map (\<lambda>h. should_free_in_backward rt m h w) hs = map Inr fs"
    unfolding unsharded_handles_def by blast+
  moreover from assms h have "reshard rt self hs fs w = (None, w2)"
    by (simp add: reshard_try_def)
  ultimately show ?thesis by blast
qed

lemma wait_loop_step:
  assumes "wait_loop rt self (pre @ m # post) w = (None, w')"
  shows "\<exists>w1 fs w2 w3. wait_loop rt self pre w = (None, w1)
           \<and> map (\<lambda>h. should_free_in_backward rt m h w1) (unsharded_handles w1 m) = map Inr fs
           \<and> reshard rt self (unsharded_handles w1 m) fs w1 = (None, w2)
           \<and> finalize_params rt self m w2 = (None, w3)
           \<and> wait_loop rt self (pre @ [m]) w = (None, reset_module self m w3)"
proof -
  obtain r w1 where p: "wait_loop rt self pre w = (r, w1)"
    by (cases "wait_loop rt self pre w")
  with assms have r: "r = None" and rest: "wait_loop rt self (m # post) w1 = (None, w')"
    by (auto simp: wait_loop_append split: option.splits)
  obtain c w2 where c: "catch_all_reshard rt self m w1 = (c, w2)"
    by (cases "catch_all_reshard rt self m w1")
  with rest have cn: "c = None" by (auto split: option.splits)
  obtain f w3 where f: "finalize_params rt self m w2 = (f, w3)"
    by (cases "finalize_params rt self m w2")
  with rest c cn have fn: "f = None" by (auto split: option.splits)
  from c cn have "reshard_try rt self m w1 = (None, w2)"
    by (simp add: catch_all_reshard_None)
  from reshard_try_None[OF this] obtain fs where
    fs: "map (\<lambda>h. should_free_in_backward rt m h w1) (unsharded_handles w1 m) = map Inr fs"
        "reshard rt self (unsharded_handles w1 m) fs w1 = (None, w2)"
    by blast
  have "wait_loop rt self (pre @ [m]) w = (None, reset_module self m w3)"
    using p r c cn f fn by (simp add: wait_loop_append)
  with p r fs f fn show ?thesis by blast
qed

lemma wait_loop_raises:
  assumes "wait_loop rt self pre w = (None, w1)"
    and "reshard_try rt self m w1 = (Some e, w2)"
  shows "wait_loop rt self (pre @ m # post) w =
           (Some e, if is_Exception e then print (reshard_failure_msg w2 m e) w2 else w2)"
  using assms by (simp add: wait_loop_append catch_all_reshard_raises)

text \<open>
  C9. In the root's \<^verbatim>\<open>_wait_for_post_backward\<close> the loop runs over every FSDP module
  of the tree, the root among them. If the call returns normally, then on each of them,
  in order, \<^verbatim>\<open>_reshard\<close> has been called with exactly the handles of that module that
  were not yet resharded and their free flags, on the state the modules before it left,
  it returned, and the rest of the iteration went on from the state \<^verbatim>\<open>_reshard\<close> left.
  If \<^verbatim>\<open>_reshard\<close>, or the computation of a free flag before it, raises \<open>e\<close> on some
  module, the call raises \<open>e\<close> (it never returns normally), and for an \<^verbatim>\<open>Exception\<close>
  the report naming the module and \<open>e\<close> has been printed onto the state the failing
  step left, before the re-raise.
\<close>

theorem wait_for_post_backward_catch_all:
  assumes root: "is_root (mods w self) = Some True"
    and fsdp: "is_fsdp (mods (before_loop rt self w) self)"
  shows "self \<in> set (fsdp_modules (before_loop rt self w) self)
     \<and> (\<forall>w'. wait_for_post_backward rt self w = (None, w') \<longrightarrow>
          (\<forall>pre m post. fsdp_modules (before_loop rt self w) self = pre @ m # post \<longrightarrow>
             (\<exists>w1 fs w2 w3.
                wait_loop rt self pre (before_loop rt self w) = (None, w1)
                \<and> map (\<lambda>h. should_free_in_backward rt m h w1) (unsharded_handles w1 m) = map Inr fs
                \<and> reshard rt self (unsharded_handles w1 m) fs w1 = (None, w2)
                \<and> finalize_params rt self m w2 = (None, w3)
                \<and> wait_loop rt self (pre @ [m]) (before_loop rt self w)
                    = (None, reset_module self m w3))))
     \<and> (\<forall>pre m post w1 fs e w2.
           fsdp_modules (before_loop rt self w) self = pre @ m # post
           \<and> wait_loop rt self pre (before_loop rt self w) = (None, w1)
           \<and> map (\<lambda>h. should_free_in_backward rt m h w1) (unsharded_handles w1 m) = map Inr fs
           \<and> reshard rt self (unsharded_handles w1 m) fs w1 = (Some e, w2) \<longrightarrow>
           wait_for_post_backward rt self w =
             (Some e, if is_Exception e then print (reshard_failure_msg w2 m e) w2 else w2))
     \<and> (\<forall>pre m post w1 e.
           fsdp_modules (before_loop rt self w) self = pre @ m # post
           \<and> wait_loop rt self pre (before_loop rt self w) = (None, w1)
           \<and> handles_to_reshard rt m [0..<length (handles (mods w1 m))] w1 = Inl e \<longrightarrow>
           wait_for_post_backward rt self w =
             (Some e, if is_Exception e then print (reshard_failure_msg w1 m e) w1 else w1))"
proof (intro conjI allI impI)
  show "self \<in> set (fsdp_modules (before_loop rt self w) self)"
    using fsdp by (simp add: fsdp_modules_def modules_def)
next
  fix w' pre m post
  assume r: "wait_for_post_backward rt self w = (None, w')"
    and s: "fsdp_modules (before_loop rt self w) self = pre @ m # post"
  obtain c w1 where l: "wait_loop rt self (pre @ m # post) (before_loop rt self w) = (c, w1)"
    by (cases "wait_loop rt self (pre @ m # post) (before_loop rt self w)")
  with r root s have "c = None"
    by (auto simp: wait_for_post_backward_def Let_def split: option.splits)
  with l have "wait_loop rt self (pre @ m # post) (before_loop rt self w) = (None, w1)"
    by simp
  then show "\<exists>w1 fs w2 w3.
                wait_loop rt self pre (before_loop rt self w) = (None, w1)
                \<and> map (\<lambda>h. should_free_in_backward rt m h w1) (unsharded_handles w1 m) = map Inr fs
                \<and> reshard rt self (unsharded_handles w1 m) fs w1 = (None, w2)
                \<and> finalize_params rt self m w2 = (None, w3)
                \<and> wait_loop rt self (pre @ [m]) (before_loop rt self w)
                    = (None, reset_module self m w3)"
    by (rule wait_loop_step)
next
  fix pre m post w1 fs e w2
  assume a: "fsdp_modules (before_loop rt self w) self = pre @ m # post
           \<and> wait_loop rt self pre (before_loop rt self w) = (None, w1)
           \<and> map (\<lambda>h. should_free_in_backward rt m h w1) (unsharded_handles w1 m) = map Inr fs
           \<and> reshard rt self (unsharded_handles w1 m) fs w1 = (Some e, w2)"
  then have "reshard_try rt self m w1 = (Some e, w2)"
    using reshard_try_reshard[of rt m w1 fs self] by simp
  with a have "wait_loop rt self (pre @ m # post) (before_loop rt self w) =
           (Some e, if is_Exception e then print (reshard_failure_msg w2 m e) w2 else w2)"
    using wait_loop_raises by blast
  with a root show "wait_for_post_backward rt self w =
             (Some e, if is_Exception e then print (reshard_failure_msg w2 m e) w2 else w2)"
    by (simp add: wait_for_post_backward_def Let_def)
next
  fix pre m post w1 e
  assume a: "fsdp_modules (before_loop rt self w) self = pre @ m # post
           \<and> wait_loop rt self pre (before_loop rt self w) = (None, w1)
           \<and> handles_to_reshard rt m [0..<length (handles (mods w1 m))] w1 = Inl e"
  then have "reshard_try rt self m w1 = (Some e, w1)"
    by (simp add: reshard_try_def)
  with a have "wait_loop rt self (pre @ m # post) (before_loop rt self w) =
           (Some e, if is_Exception e then print (reshard_failure_msg w1 m e) w1 else w1)"
    using wait_loop_raises by blast
  with a root show "wait_for_post_backward rt self w =
             (Some e, if is_Exception e then print (reshard_failure_msg w1 m e) w1 else w1)"
    by (simp add: wait_for_post_backward_def Let_def)
qed

theorem wait_for_post_backward_catch_all_witness:
  "fst (wait_for_post_backward example_runtime 0 example_world_unsharded)
     = Some (RuntimeError ''device error'')
   \<and> stdout (snd (wait_for_post_backward example_runtime 0 example_world_unsharded))
     = [''Got exception while resharding module FSDP: device error'']"
proof -
  let ?w = example_world_unsharded
  let ?wb = "before_loop example_runtime 0 ?w"
  let ?wr = "reset_module 0 0 ?w"
  have w0: "?wb = ?w"
    by (simp add: before_loop_def example_runtime_def example_world_unsharded_def
        example_world_def example_module_def Let_def)
  have root: "is_root (mods ?w 0) = Some True"
    by (simp add: example_world_unsharded_def example_world_def example_module_def)
  have fsdp: "is_fsdp (mods ?wb 0)"
    unfolding w0
    by (simp add: example_world_unsharded_def example_world_def example_module_def)
  have ms: "fsdp_modules ?wb 0 = [0] @ 1 # []"
    unfolding w0
    by (simp add: fsdp_modules_def modules_def example_world_unsharded_def
        example_world_def example_module_def)
  have h0: "handles (mods ?w 0) = []"
    by (simp add: example_world_unsharded_def example_world_def example_module_def)
  have pre: "wait_loop example_runtime 0 [0] ?wb = (None, ?wr)"
    unfolding w0
    by (simp add: h0 catch_all_reshard_def reshard_try_def finalize_params_def
        example_runtime_def)
  have h1: "handles (mods ?wr 1) = [example_handle\<lparr>handle_training_state := HandleBusy 1\<rparr>]"
    by (simp add: reset_module_def Let_def example_world_unsharded_def example_world_def
        example_module_def example_handle_def)
  have uh: "unsharded_handles ?wr 1 = [(1, 0)]"
    using h1 by (simp add: unsharded_handles_def example_handle_def)
  have sf: "map (\<lambda>h. should_free_in_backward example_runtime 1 h ?wr) (unsharded_handles ?wr 1)
              = map Inr [True]"
    unfolding uh by (simp add: example_runtime_def)
  have rs: "reshard example_runtime 0 (unsharded_handles ?wr 1) [True] ?wr
              = (Some (RuntimeError ''device error''), ?wr)"
    unfolding uh by (simp add: example_runtime_def)
  have "wait_for_post_backward example_runtime 0 ?w =
          (Some (RuntimeError ''device error''),
           print (reshard_failure_msg ?wr 1 (RuntimeError ''device error'')) ?wr)"
    using wait_for_post_backward_catch_all[OF root fsdp, THEN conjunct2, THEN conjunct2,
        THEN conjunct1, rule_format, OF conjI[OF ms conjI[OF pre conjI[OF sf rs]]]]
    by simp
  moreover have "module_str (mods ?wr 1) = ''FSDP''" "stdout ?wr = []"
    by (simp_all add: reset_module_def Let_def upd_mod_def example_world_unsharded_def
        example_world_def example_module_def)
  ultimately show ?thesis
    by (simp add: print_def reshard_failure_msg_def)
qed

subsection \<open>\<^verbatim>\<open>propagate\<close>\<close>

lemma propagate_op_sharding_hit:
  "cache st sch = Some res \<Longrightarrow> propagate_op_sharding env sch st = (Inr res, st)"
  by (simp add: propagate_op_sharding_def)

lemma propagate_op_sharding_stores:
  assumes "propagate_op_sharding env sch st = (Inr res, st1)"
  shows "cache st1 sch = Some res"
  using assms
  by (auto simp: propagate_op_sharding_def split: option.splits prod.splits sum.splits)

lemma propagate_op_sharding_miss:
  assumes "cache st sch = None"
  shows "invocations (snd (propagate_op_sharding env sch st)) =
           invocations st @ snd (propagate_op_sharding_non_cached env sch)"
  using assms
  by (auto simp: propagate_op_sharding_def split: option.splits prod.splits sum.splits)

text \<open>
  C5. Without symbolic integers: once \<^verbatim>\<open>propagate\<close> has returned for a schema, a
  further \<^verbatim>\<open>propagate\<close> with the same schema returns the same \<^verbatim>\<open>OutputSharding\<close> and
  leaves the state as it is, so no registered strategy function or rule runs again; the
  calls the first one made on a cache miss are those of the uncached path. With
  \<^verbatim>\<open>has_symints\<close> every \<^verbatim>\<open>propagate\<close> is the uncached path: its result, its calls to
  registered functions, and the cache neither read nor written.
\<close>

theorem propagate_caching:
  "(\<not> has_symints (schema info) \<and> propagate env info st = (None, info1, st1) \<longrightarrow>
      (cache st (schema info) = None \<longrightarrow>
         invocations st1 = invocations st @ snd (propagate_op_sharding_non_cached env (schema info)))
      \<and> (\<forall>info'. schema info' = schema info \<longrightarrow>
            propagate env info' st1 =
              (None, info'\<lparr>info_output_sharding := info_output_sharding info1\<rparr>, st1)))
   \<and> (has_symints (schema info) \<longrightarrow>
        propagate env info st =
          (case propagate_op_sharding_non_cached env (schema info) of
             (Inl e, calls) \<Rightarrow> (Some e, info, st\<lparr>invocations := invocations st @ calls\<rparr>)
           | (Inr res, calls) \<Rightarrow>
               (None, info\<lparr>info_output_sharding := Some res\<rparr>,
                st\<lparr>invocations := invocations st @ calls\<rparr>)))"
proof (intro conjI impI allI)
  assume a: "\<not> has_symints (schema info) \<and> propagate env info st = (None, info1, st1)"
  obtain r s where p: "propagate_op_sharding env (schema info) st = (r, s)"
    by (cases "propagate_op_sharding env (schema info) st")
  with a obtain res where r: "r = Inr res" and s: "s = st1"
    and i1: "info1 = info\<lparr>info_output_sharding := Some res\<rparr>"
    by (auto simp: propagate_def split: sum.splits)
  have c: "cache st1 (schema info) = Some res"
    using propagate_op_sharding_stores p r s by blast
  {
    assume "cache st (schema info) = None"
    from propagate_op_sharding_miss[OF this, of env] p s
    show "invocations st1 = invocations st @ snd (propagate_op_sharding_non_cached env (schema info))"
      by simp
  }
  {
    fix info' :: op_info
    assume e: "schema info' = schema info"
    show "propagate env info' st1 =
              (None, info'\<lparr>info_output_sharding := info_output_sharding info1\<rparr>, st1)"
      using a e i1 propagate_op_sharding_hit[OF c, of env]
      by (simp add: propagate_def)
  }
next
  assume "has_symints (schema info)"
  then show "propagate env info st =
          (case propagate_op_sharding_non_cached env (schema info) of
             (Inl e, calls) \<Rightarrow> (Some e, info, st\<lparr>invocations := invocations st @ calls\<rparr>)
           | (Inr res, calls) \<Rightarrow>
               (None, info\<lparr>info_output_sharding := Some res\<rparr>,
                st\<lparr>invocations := invocations st @ calls\<rparr>))"
    by (simp add: propagate_def split: prod.splits sum.splits)
qed

subsection \<open>\<^verbatim>\<open>_select_strategy\<close>\<close>







subsection \<open>The strategy branch\<close>




subsection \<open>The rule branch\<close>

lemma wrap_sharding_OutNone:
  "output_spec os = OutNone \<Longrightarrow> wrap_sharding sch meta os = Inr os"
  by (simp add: wrap_sharding_def wrap_output_spec_tensor_meta_def)

text \<open>
  C7, as the code has it. On the rule path, when the rule returns no output spec: with
  schema suggestions, the rule runs a second time on the first suggestion, the output
  spec of that result (with the output metadata written in) replaces the missing one and
  \<^verbatim>\<open>needs_redistribute\<close> is set; with no suggestions and a failure reason, the call
  raises \<^verbatim>\<open>RuntimeError\<close> carrying that reason; with no suggestions and no failure
  reason, the call returns the rule's \<^verbatim>\<open>OutputSharding\<close> as it is.
\<close>

theorem rule_path_no_output_spec:
  assumes skip: "op sch \<notin> set (skip_prop_list env)"
    and meta: "propagate_tensor_meta env sch = Inr out_tensor_meta"
    and nofunc: "op_strategy_funcs env (op sch) = None"
    and rule: "op_to_rules env (op sch) = Some sharding_prop_func"
    and first: "sharding_prop_func sch = Inr os"
    and none: "output_spec os = OutNone"
  shows "(\<forall>s other res. schema_suggestions os = Some (s # other) \<and> sharding_prop_func s = Inr res \<longrightarrow>
            propagate_op_sharding_non_cached env sch =
              (case wrap_output_spec_tensor_meta (op sch) (output_spec res) out_tensor_meta of
                 Inl e \<Rightarrow> Inl e
               | Inr spec \<Rightarrow> Inr (os\<lparr>output_spec := spec, needs_redistribute := True\<rparr>),
               [RuleCall (op sch) sch, RuleCall (op sch) s]))
       \<and> (\<forall>reason. schema_suggestions os = None \<and> failed_reason os = Some reason \<longrightarrow>
            propagate_op_sharding_non_cached env sch =
              (Inl (RuntimeError (rule_failed_msg env sch reason)), [RuleCall (op sch) sch]))
       \<and> (schema_suggestions os = None \<and> failed_reason os = None \<longrightarrow>
            propagate_op_sharding_non_cached env sch = (Inr os, [RuleCall (op sch) sch]))"
proof -
  have p: "propagate_op_sharding_non_cached env sch =
             rule_path env sch sharding_prop_func out_tensor_meta"
    using skip meta nofunc rule by (simp add: propagate_op_sharding_non_cached_def)
  show ?thesis
  proof (intro conjI allI impI)
    fix s other res
    assume a: "schema_suggestions os = Some (s # other) \<and> sharding_prop_func s = Inr res"
    then have "rule_retry env sch sharding_prop_func os =
                 (Inr (os\<lparr>output_spec := output_spec res, needs_redistribute := True\<rparr>),
                  [RuleCall (op sch) s])"
      using none by (simp add: rule_retry_def)
    then show "propagate_op_sharding_non_cached env sch =
              (case wrap_output_spec_tensor_meta (op sch) (output_spec res) out_tensor_meta of
                 Inl e \<Rightarrow> Inl e
               | Inr spec \<Rightarrow> Inr (os\<lparr>output_spec := spec, needs_redistribute := True\<rparr>),
               [RuleCall (op sch) sch, RuleCall (op sch) s])"
      using first by (simp add: p rule_path_def wrap_sharding_def split: sum.splits)
  next
    fix reason
    assume "schema_suggestions os = None \<and> failed_reason os = Some reason"
    then show "propagate_op_sharding_non_cached env sch =
              (Inl (RuntimeError (rule_failed_msg env sch reason)), [RuleCall (op sch) sch])"
      using first none by (simp add: p rule_path_def rule_retry_def)
  next
    assume "schema_suggestions os = None \<and> failed_reason os = None"
    then show "propagate_op_sharding_non_cached env sch = (Inr os, [RuleCall (op sch) sch])"
      using first none by (simp add: p rule_path_def rule_retry_def wrap_sharding_OutNone)
  qed
qed

lemmas example_defs =
  example_propagator_def op_add_def op_mm_def op_silent_def mm_rule_def silent_rule_def
  add_schema_def mm_schema_def mm_schema_replicated_def silent_schema_def
  spec_shard_def spec_replicate_def example_meta_def OutputSharding_def args_spec_def
  propagate_tensor_meta_def

theorem rule_path_no_output_spec_witness:
  "propagate_op_sharding_non_cached example_propagator mm_schema_replicated =
     (Inr \<lparr>output_spec = OutSpec (spec_shard\<lparr>tensor_meta := Some example_meta\<rparr>),
           schema_suggestions = Some [mm_schema],
           failed_reason = None,
           needs_redistribute = True\<rparr>,
      [RuleCall op_mm mm_schema_replicated, RuleCall op_mm mm_schema])"
proof -
  let ?os = "OutputSharding OutNone (Some [mm_schema])"
  have h1: "op mm_schema_replicated \<notin> set (skip_prop_list example_propagator)"
    by (simp add: example_defs)
  have h2: "propagate_tensor_meta example_propagator mm_schema_replicated = Inr (MetaOne example_meta)"
    by (simp add: example_defs)
  have h3: "op_strategy_funcs example_propagator (op mm_schema_replicated) = None"
    by (simp add: example_defs)
  have h4: "op_to_rules example_propagator (op mm_schema_replicated) = Some mm_rule"
    by (simp add: example_propagator_def op_mm_def op_silent_def mm_schema_replicated_def)
  have h5: "mm_rule mm_schema_replicated = Inr ?os"
    by (simp add: example_defs)
  have h6: "output_spec ?os = OutNone"
    by (simp add: OutputSharding_def)
  have sg: "schema_suggestions ?os = Some (mm_schema # [])"
    by (simp add: OutputSharding_def)
  have h7: "mm_rule mm_schema = Inr (OutputSharding (OutSpec spec_shard) None)"
    by (simp add: example_defs)
  have "propagate_op_sharding_non_cached example_propagator mm_schema_replicated =
          (case wrap_output_spec_tensor_meta (op mm_schema_replicated)
                  (output_spec (OutputSharding (OutSpec spec_shard) None)) (MetaOne example_meta) of
             Inl e \<Rightarrow> Inl e
           | Inr spec \<Rightarrow> Inr (?os\<lparr>output_spec := spec, needs_redistribute := True\<rparr>),
           [RuleCall (op mm_schema_replicated) mm_schema_replicated,
            RuleCall (op mm_schema_replicated) mm_schema])"
    using rule_path_no_output_spec[OF h1 h2 h3 h4 h5 h6, THEN conjunct1, rule_format,
        OF conjI[OF sg h7]] .
  then show ?thesis
    by (simp add: wrap_output_spec_tensor_meta_def OutputSharding_def mm_schema_replicated_def)
qed

theorem rule_path_silent_counterexample:
  "op_strategy_funcs example_propagator (op silent_schema) = None
   \<and> op_to_rules example_propagator (op silent_schema) = Some silent_rule
   \<and> output_spec (OutputSharding OutNone None) = OutNone
   \<and> schema_suggestions (OutputSharding OutNone None) = None
   \<and> silent_rule silent_schema = Inr (OutputSharding OutNone None)
   \<and> propagate_op_sharding_non_cached example_propagator silent_schema =
       (Inr (OutputSharding OutNone None), [RuleCall op_silent silent_schema])"
  by (simp add: example_defs propagate_op_sharding_non_cached_def rule_path_def rule_retry_def
      wrap_sharding_def wrap_output_spec_tensor_meta_def)

theorem propagate_caching_witness:
  "\<exists>info1 st1.
     propagate example_propagator \<lparr>schema = mm_schema, info_output_sharding = None\<rparr>
       empty_prop_state = (None, info1, st1)
     \<and> invocations st1 = [RuleCall op_mm mm_schema]
     \<and> propagate example_propagator \<lparr>schema = mm_schema, info_output_sharding = None\<rparr> st1
         = (None, info1, st1)"
proof -
  let ?info = "\<lparr>schema = mm_schema, info_output_sharding = None\<rparr>"
  have nc: "propagate_op_sharding_non_cached example_propagator mm_schema =
      (Inr \<lparr>output_spec = OutSpec (spec_shard\<lparr>tensor_meta := Some example_meta\<rparr>),
            schema_suggestions = None, failed_reason = None, needs_redistribute = False\<rparr>,
       [RuleCall op_mm mm_schema])"
    by (simp add: example_defs propagate_op_sharding_non_cached_def rule_path_def rule_retry_def
        wrap_sharding_def wrap_output_spec_tensor_meta_def)
  obtain r info1 st1 where p: "propagate example_propagator ?info empty_prop_state = (r, info1, st1)"
    by (cases "propagate example_propagator ?info empty_prop_state")
  have r: "r = None" and i1: "info_output_sharding info1 \<noteq> None" "schema info1 = mm_schema"
    using p nc
    by (auto simp: propagate_def propagate_op_sharding_def empty_prop_state_def mm_schema_def)
  have ns: "\<not> has_symints (schema ?info)" by (simp add: mm_schema_def)
  have miss: "cache empty_prop_state (schema ?info) = None" by (simp add: empty_prop_state_def)
  note t = propagate_caching[of ?info example_propagator empty_prop_state info1 st1,
      THEN conjunct1, rule_format, OF conjI[OF ns p[unfolded r]]]
  from t[THEN conjunct1, rule_format, OF miss]
  have inv: "invocations st1 = [RuleCall op_mm mm_schema]"
    by (simp add: nc empty_prop_state_def)
  have same: "info1 = ?info\<lparr>info_output_sharding := info_output_sharding info1\<rparr>"
    using p nc
    by (auto simp: propagate_def propagate_op_sharding_def empty_prop_state_def mm_schema_def)
  from t[THEN conjunct2, rule_format, of ?info]
  have "propagate example_propagator ?info st1 =
          (None, ?info\<lparr>info_output_sharding := info_output_sharding info1\<rparr>, st1)"
    by simp
  with same have "propagate example_propagator ?info st1 = (None, info1, st1)" by simp
  with p r inv show ?thesis by blast
qed


subsection \<open>\<^verbatim>\<open>compute_local_shape\<close>\<close>







subsection \<open>The strided-part scan\<close>

lemma strided_scan_error:
  "strided_scan seen ended ps = Some e \<Longrightarrow> e = NotImplementedError strided_part_ended_msg"
proof (induction ps arbitrary: seen ended)
  case Nil
  then show ?case by simp
next
  case (Cons p ps)
  then show ?case by (cases p) (auto split: if_splits)
qed

lemma strided_scan_ended:
  "d \<in> ended \<Longrightarrow> Shard d \<in> set ps \<Longrightarrow> strided_scan seen ended ps \<noteq> None"
proof (induction ps arbitrary: seen ended)
  case Nil
  then show ?case by simp
next
  case (Cons p ps)
  show ?case
  proof (cases p)
    case Replicate
    with Cons show ?thesis by simp
  next
    case (Shard d')
    show ?thesis
    proof (cases "d' \<in> ended")
      case True
      with Shard show ?thesis by simp
    next
      case False
      with Cons.prems Shard have "Shard d \<in> set ps" by auto
      with Cons.IH[of "if d' \<in> seen then insert d' ended else ended" seen] Cons.prems(1) False Shard
      show ?thesis by simp
    qed
  next
    case (StridedShard d' k)
    with Cons show ?thesis by simp
  qed
qed

lemma strided_scan_seen:
  "d \<in> seen \<Longrightarrow> Shard d \<in> set zs \<Longrightarrow> strided_scan seen ended (ys @ Shard d # zs) \<noteq> None"
proof (induction ys arbitrary: seen ended)
  case Nil
  then show ?case using strided_scan_ended[of d "insert d ended" zs seen] by simp
next
  case (Cons p ys)
  show ?case
  proof (cases p)
    case Replicate
    with Cons show ?thesis by simp
  next
    case (Shard d')
    with Cons.IH[OF Cons.prems, of "if d' \<in> seen then insert d' ended else ended"]
    show ?thesis by simp
  next
    case (StridedShard d' k)
    with Cons.IH[of "insert d' seen" ended] Cons.prems show ?thesis by simp
  qed
qed

lemma strided_scan_strided:
  "Shard d \<in> set zs \<Longrightarrow>
     strided_scan seen ended (xs @ StridedShard d sf # ys @ Shard d # zs) \<noteq> None"
proof (induction xs arbitrary: seen ended)
  case Nil
  then show ?case using strided_scan_seen[of d "insert d seen" zs ended ys] by simp
next
  case (Cons p xs)
  show ?case
  proof (cases p)
    case Replicate
    with Cons show ?thesis by simp
  next
    case (Shard d')
    with Cons.IH[OF Cons.prems, of seen "if d' \<in> seen then insert d' ended else ended"]
    show ?thesis by simp
  next
    case (StridedShard d' k)
    with Cons.IH[OF Cons.prems, of "insert d' seen" ended] show ?thesis by simp
  qed
qed

lemma strided_scan_Some:
  "strided_scan seen ended ps = Some e \<Longrightarrow>
     (\<exists>d. (d \<in> ended \<and> Shard d \<in> set ps)
        \<or> (d \<in> seen \<and> (\<exists>ys zs. ps = ys @ Shard d # zs \<and> Shard d \<in> set zs))
        \<or> (\<exists>xs sf ys zs. ps = xs @ StridedShard d sf # ys @ Shard d # zs \<and> Shard d \<in> set zs))"
proof (induction ps arbitrary: seen ended)
  case Nil
  then show ?case by simp
next
  case (Cons p ps)
  let ?V = "\<lambda>seen ended ps d.
        (d \<in> ended \<and> Shard d \<in> set ps)
        \<or> (d \<in> seen \<and> (\<exists>ys zs. ps = ys @ Shard d # zs \<and> Shard d \<in> set zs))
        \<or> (\<exists>xs sf ys zs. ps = xs @ StridedShard d sf # ys @ Shard d # zs \<and> Shard d \<in> set zs)"
  have keep_b: "?V seen ended (p # ps) d"
    if "d \<in> seen" "ps = ys @ Shard d # zs" "Shard d \<in> set zs" for d ys zs
  proof -
    from that have "p # ps = (p # ys) @ Shard d # zs" by simp
    with that(1,3) show ?thesis by (intro disjI2 disjI1 conjI exI) 
  qed
  have keep_c: "?V seen ended (p # ps) d"
    if "ps = xs @ StridedShard d sf # ys @ Shard d # zs" "Shard d \<in> set zs" for d xs sf ys zs
  proof -
    from that have "p # ps = (p # xs) @ StridedShard d sf # ys @ Shard d # zs" by simp
    with that(2) show ?thesis by (intro disjI2 conjI exI)
  qed
  show ?case
  proof (cases p)
    case Replicate
    with Cons.prems have "strided_scan seen ended ps = Some e" by simp
    from Cons.IH[OF this] show ?thesis
    proof (elim exE disjE conjE)
      fix d assume "d \<in> ended" "Shard d \<in> set ps"
      then have "?V seen ended (p # ps) d" by simp
      then show ?thesis ..
    next
      fix d ys zs assume "d \<in> seen" "ps = ys @ Shard d # zs" "Shard d \<in> set zs"
      from keep_b[OF this] show ?thesis ..
    next
      fix d xs sf ys zs
      assume "ps = xs @ StridedShard d sf # ys @ Shard d # zs" "Shard d \<in> set zs"
      from keep_c[OF this] show ?thesis ..
    qed
  next
    case (Shard d')
    show ?thesis
    proof (cases "d' \<in> ended")
      case True
      with Shard have "?V seen ended (p # ps) d'" by simp
      then show ?thesis ..
    next
      case False
      let ?ended = "if d' \<in> seen then insert d' ended else ended"
      from Cons.prems Shard False have "strided_scan seen ?ended ps = Some e" by simp
      from Cons.IH[OF this] show ?thesis
      proof (elim exE disjE conjE)
        fix d assume a: "d \<in> ?ended" "Shard d \<in> set ps"
        show ?thesis
        proof (cases "d \<in> ended")
          case True
          with a have "?V seen ended (p # ps) d" by simp
          then show ?thesis ..
        next
          case False
          with a(1) have dd: "d = d'" "d' \<in> seen" by (simp_all split: if_splits)
          have "p # ps = [] @ Shard d' # ps" using Shard by simp
          with dd a(2) have "?V seen ended (p # ps) d'"
            by (intro disjI2 disjI1 conjI exI) auto
          then show ?thesis ..
        qed
      next
        fix d ys zs assume "d \<in> seen" "ps = ys @ Shard d # zs" "Shard d \<in> set zs"
        from keep_b[OF this] show ?thesis ..
      next
        fix d xs sf ys zs
        assume "ps = xs @ StridedShard d sf # ys @ Shard d # zs" "Shard d \<in> set zs"
        from keep_c[OF this] show ?thesis ..
      qed
    qed
  next
    case (StridedShard d' k)
    with Cons.prems have "strided_scan (insert d' seen) ended ps = Some e" by simp
    from Cons.IH[OF this] show ?thesis
    proof (elim exE disjE conjE)
      fix d assume "d \<in> ended" "Shard d \<in> set ps"
      then have "?V seen ended (p # ps) d" by simp
      then show ?thesis ..
    next
      fix d ys zs assume b: "d \<in> insert d' seen" "ps = ys @ Shard d # zs" "Shard d \<in> set zs"
      show ?thesis
      proof (cases "d \<in> seen")
        case True
        from keep_b[OF True b(2,3)] show ?thesis ..
      next
        case False
        with b(1) have "d = d'" by simp
        then have "p # ps = [] @ StridedShard d k # ys @ Shard d # zs"
          using StridedShard b(2) by simp
        with b(3) have "?V seen ended (p # ps) d" by (intro disjI2 conjI exI)
        then show ?thesis ..
      qed
    next
      fix d xs sf ys zs
      assume "ps = xs @ StridedShard d sf # ys @ Shard d # zs" "Shard d \<in> set zs"
      from keep_c[OF this] show ?thesis ..
    qed
  qed
qed

lemma strided_scan_iff:
  "strided_scan {} {} ps =
     (if shard_after_strided_part_ended ps
      then Some (NotImplementedError strided_part_ended_msg) else None)"
proof (cases "shard_after_strided_part_ended ps")
  case True
  then obtain xs ys zs ws d sf where
    "ps = xs @ StridedShard d sf # ys @ Shard d # zs @ Shard d # ws"
    unfolding shard_after_strided_part_ended_def by blast
  then have "strided_scan {} {} ps \<noteq> None"
    using strided_scan_strided[of d "zs @ Shard d # ws" "{}" "{}" xs sf ys] by simp
  then show ?thesis using True strided_scan_error by fastforce
next
  case False
  have "strided_scan {} {} ps = None"
  proof (rule ccontr)
    assume "strided_scan {} {} ps \<noteq> None"
    then obtain e where "strided_scan {} {} ps = Some e" by blast
    from strided_scan_Some[OF this] obtain d xs sf ys zs where
      ps: "ps = xs @ StridedShard d sf # ys @ Shard d # zs" and "Shard d \<in> set zs"
      by blast
    then obtain zs' ws where "zs = zs' @ Shard d # ws" by (meson split_list)
    with ps have "shard_after_strided_part_ended ps"
      unfolding shard_after_strided_part_ended_def by blast
    with False show False by simp
  qed
  with False show ?thesis by simp
qed

lemma strided_part_ended_msg_mentions:
  "sublist ''the strided part has ended'' strided_part_ended_msg"
  unfolding sublist_def strided_part_ended_msg_def
  by (rule exI[of _ "''Strided sharding does not allow Shard() to appear after ''"],
      rule exI[of _ "''.''"]) simp

text \<open>
  C2. \<^verbatim>\<open>compute_local_shape_and_global_offset\<close> raises \<^verbatim>\<open>NotImplementedError\<close>, with
  a message that contains "the strided part has ended", for every placement list that
  holds a \<^verbatim>\<open>StridedShard(d)\<close>, later a plain \<^verbatim>\<open>Shard(d)\<close> and later another plain
  \<^verbatim>\<open>Shard(d)\<close>, and returns no pair for it; for every other placement list it returns
  a pair, as for a strided part followed by a \<^verbatim>\<open>Shard\<close> on another dimension.
\<close>

theorem strided_part_ended_rejected:
  "(shard_after_strided_part_ended pls \<longrightarrow>
      (\<exists>msg. compute_local_shape_and_global_offset strided_offset gs mesh_sizes my_coordinate pls
               = Inl (NotImplementedError msg)
            \<and> sublist ''the strided part has ended'' msg))
   \<and> (\<not> shard_after_strided_part_ended pls \<longrightarrow>
      (\<exists>local_shape global_offset.
          compute_local_shape_and_global_offset strided_offset gs mesh_sizes my_coordinate pls
            = Inr (local_shape, global_offset)))
   \<and> (\<forall>d d' sf. d' \<noteq> d \<longrightarrow>
         \<not> shard_after_strided_part_ended [StridedShard d sf, Shard d, Shard d'])"
proof (intro conjI impI allI)
  assume "shard_after_strided_part_ended pls"
  then show "\<exists>msg. compute_local_shape_and_global_offset strided_offset gs mesh_sizes my_coordinate pls
               = Inl (NotImplementedError msg)
            \<and> sublist ''the strided part has ended'' msg"
    using strided_part_ended_msg_mentions
    by (simp add: compute_local_shape_and_global_offset_def strided_scan_iff)
next
  assume "\<not> shard_after_strided_part_ended pls"
  then show "\<exists>local_shape global_offset.
          compute_local_shape_and_global_offset strided_offset gs mesh_sizes my_coordinate pls
            = Inr (local_shape, global_offset)"
    by (simp add: compute_local_shape_and_global_offset_def strided_scan_iff)
next
  fix d d' :: nat and sf :: nat
  assume "d' \<noteq> d"
  then have "strided_scan {} {} [StridedShard d sf, Shard d, Shard d'] = None" by simp
  then show "\<not> shard_after_strided_part_ended [StridedShard d sf, Shard d, Shard d']"
    by (metis strided_scan_iff option.distinct(1))
qed

theorem strided_part_ended_rejected_witness:
  "(\<exists>msg. compute_local_shape_and_global_offset (\<lambda>gs m c ps. []) [16, 16] [2, 2, 2] [1, 0, 1]
             [StridedShard 0 2, Shard 0, Shard 0] = Inl (NotImplementedError msg)
          \<and> sublist ''the strided part has ended'' msg)
   \<and> (\<exists>local_shape global_offset.
         compute_local_shape_and_global_offset (\<lambda>gs m c ps. []) [16, 16] [2, 2, 2] [1, 0, 1]
           [StridedShard 0 2, Shard 0, Shard 1] = Inr (local_shape, global_offset))"
proof -
  have "[StridedShard 0 2, Shard 0, Shard 0] = [] @ StridedShard 0 2 # [] @ Shard 0 # [] @ Shard 0 # []"
    by simp
  then have v: "shard_after_strided_part_ended [StridedShard 0 2, Shard 0, Shard 0]"
    unfolding shard_after_strided_part_ended_def by blast
  have "(1::nat) \<noteq> 0" by simp
  then have n: "\<not> shard_after_strided_part_ended [StridedShard 0 2, Shard 0, Shard 1]"
    using strided_part_ended_rejected[of "[]" "\<lambda>gs m c ps. []" "[]" "[]" "[]"] by blast
  show ?thesis
    using strided_part_ended_rejected[of "[StridedShard 0 2, Shard 0, Shard 0]"
            "\<lambda>gs m c ps. []" "[16, 16]" "[2, 2, 2]" "[1, 0, 1]"]
          strided_part_ended_rejected[of "[StridedShard 0 2, Shard 0, Shard 1]"
            "\<lambda>gs m c ps. []" "[16, 16]" "[2, 2, 2]" "[1, 0, 1]"]
          v n
    by blast
qed

subsection \<open>Shard, then gather back\<close>

lemma concat_split_sizes: "concat (split_sizes ss xs) = take (sum_list ss) xs"
proof (induction ss arbitrary: xs)
  case Nil
  then show ?case by simp
next
  case (Cons s ss)
  show ?case by (simp add: Cons.IH take_add)
qed

lemma length_split_sizes [simp]: "length (split_sizes ss xs) = length ss"
  by (induction ss arbitrary: xs) simp_all

lemma split_sizes_concat: "split_sizes (map length bs) (concat bs) = bs"
  by (induction bs) simp_all

lemma map_length_split_sizes:
  "sum_list ss \<le> length xs \<Longrightarrow> map length (split_sizes ss xs) = ss"
  by (induction ss arbitrary: xs) auto

lemma sum_indicator_below: "r \<le> n \<Longrightarrow> (\<Sum>c<n. if c < r then 1 else 0) = (r::nat)"
proof (induction n)
  case 0
  then show ?case by simp
next
  case (Suc n)
  show ?case
  proof (cases "r = Suc n")
    case True
    then show ?thesis by simp
  next
    case False
    with Suc.prems have "r \<le> n" by simp
    with Suc.IH show ?thesis by simp
  qed
qed

lemma sum_list_chunk_sizes:
  assumes "0 < n"
  shows "sum_list (chunk_sizes sz n) = sz"
proof -
  have "sum_list (chunk_sizes sz n) = (\<Sum>c<n. local_shard_size sz n c)"
    by (simp add: chunk_sizes_def sum_list_sum_nth atLeast0LessThan)
  also have "\<dots> = (\<Sum>c<n. sz div n) + (\<Sum>c<n. if c < sz mod n then 1 else 0)"
    by (simp add: local_shard_size_def sum.distrib)
  also have "\<dots> = n * (sz div n) + sz mod n"
    using assms by (simp add: sum_indicator_below)
  finally show ?thesis by simp
qed

lemma interleave_Suc:
  "concat (map (\<lambda>i. map (g i) [0..<k]) [0..<Suc n]) =
     concat (map (\<lambda>i. map (g i) [0..<k]) [0..<n]) @ map (g n) [0..<k]"
  by simp

lemma length_concat_rows: "length (concat (map (\<lambda>i. map (g i) [0..<k]) [0..<n])) = n * k"
  by (induction n) simp_all

lemma length_interleave [simp]: "length (interleave n k f) = n * k"
  unfolding interleave_def by (rule length_concat_rows)

lemma nth_concat_rows:
  "i < n \<Longrightarrow> j < k \<Longrightarrow> concat (map (\<lambda>i. map (g i) [0..<k]) [0..<n]) ! (i * k + j) = g i j"
proof (induction n)
  case 0
  then show ?case by simp
next
  case (Suc n)
  show ?case
  proof (cases "i < n")
    case True
    then have "i * k + j < n * k"
      using Suc.prems(2)
      by (metis add.commute add_less_cancel_left less_le_trans mult_Suc mult_le_mono1 Suc_leI)
    then show ?thesis
      using Suc.IH[OF True Suc.prems(2)]
      by (simp add: nth_append length_concat_rows)
  next
    case False
    with Suc.prems have "i = n" by simp
    then show ?thesis
      using Suc.prems(2) by (simp add: nth_append length_concat_rows)
  qed
qed

lemma nth_interleave: "i < n \<Longrightarrow> j < k \<Longrightarrow> interleave n k f ! (i * k + j) = f (i + j * n)"
  unfolding interleave_def by (rule nth_concat_rows)

lemma map_interleave: "map h (interleave n k f) = interleave n k (\<lambda>m. h (f m))"
  by (simp add: interleave_def map_concat comp_def)

lemma interleave_cong:
  "(\<And>m. m < n * k \<Longrightarrow> f m = g m) \<Longrightarrow> interleave n k f = interleave n k g"
proof -
  assume a: "\<And>m. m < n * k \<Longrightarrow> f m = g m"
  have "i + j * n < n * k" if "i < n" "j < k" for i j
  proof -
    from that have "i + j * n < n + j * n" by simp
    also have "\<dots> = (Suc j) * n" by simp
    also have "\<dots> \<le> k * n" using that(2) by (intro mult_le_mono1) simp
    finally show ?thesis by (simp add: mult.commute)
  qed
  then show ?thesis
    unfolding interleave_def
    by (intro arg_cong[where f=concat] map_cong refl) (simp add: a)
qed

lemma uninterleave:
  assumes "0 < n" "length bs = n * k"
  shows "map (\<lambda>m. interleave n k (\<lambda>m. bs ! m) ! ((m mod n) * k + m div n)) [0..<n * k] = bs"
proof (rule nth_equalityI)
  show "length (map (\<lambda>m. interleave n k (\<lambda>m. bs ! m) ! ((m mod n) * k + m div n)) [0..<n * k])
          = length bs"
    using assms by simp
next
  fix m assume "m < length (map (\<lambda>m. interleave n k (\<lambda>m. bs ! m) ! ((m mod n) * k + m div n)) [0..<n * k])"
  then have m: "m < n * k" by simp
  have i: "m mod n < n" using assms(1) by simp
  have j: "m div n < k" using m assms(1) by (simp add: less_mult_imp_div_less mult.commute)
  have "interleave n k (\<lambda>m. bs ! m) ! ((m mod n) * k + m div n) = bs ! (m mod n + (m div n) * n)"
    using nth_interleave[OF i j] .
  also have "m mod n + (m div n) * n = m" by simp
  finally show "map (\<lambda>m. interleave n k (\<lambda>m. bs ! m) ! ((m mod n) * k + m div n)) [0..<n * k] ! m
                  = bs ! m"
    using m by simp
qed

lemma concat_map_concat_rows: "concat (map concat xss) = concat (concat xss)"
  by (induction xss) simp_all

lemma split_sizes_chunks:
  assumes "0 < n"
  shows "concat (split_sizes (chunk_sizes (length x) n) x) = x"
    and "map length (split_sizes (chunk_sizes (length x) n) x) = chunk_sizes (length x) n"
    and "length (split_sizes (chunk_sizes (length x) n) x) = n"
  using assms
  by (simp_all add: concat_split_sizes sum_list_chunk_sizes map_length_split_sizes)
     (simp add: chunk_sizes_def)

lemma strided_round_trip:
  assumes "0 < n" "0 < k"
  shows "to_replicate_tensor (StridedShard d k)
           (the (split_tensor (StridedShard d k) x n)) n (length x) = Some x"
proof -
  let ?cs = "chunk_sizes (length x) (n * k)"
  let ?B = "split_sizes ?cs x"
  let ?P = "interleave n k (\<lambda>m. ?B ! m)"
  have nk: "0 < n * k" using assms by simp
  have B: "concat ?B = x" "map length ?B = ?cs" "length ?B = n * k"
    using split_sizes_chunks[OF nk, of x] by auto
  have shards: "the (split_tensor (StridedShard d k) x n)
                  = map (\<lambda>i. concat (map (\<lambda>j. ?B ! (i + j * n)) [0..<k])) [0..<n]"
    by (simp add: Let_def)
  have gathered: "concat (map (\<lambda>i. concat (map (\<lambda>j. ?B ! (i + j * n)) [0..<k])) [0..<n]) = concat ?P"
    by (simp add: interleave_def concat_map_concat_rows[symmetric] comp_def)
  have len: "length (?B ! m) = ?cs ! m" if "m < n * k" for m
    using that B(2,3) by (metis nth_map)
  have "interleave n k (\<lambda>m. length (?B ! m)) = interleave n k (\<lambda>m. ?cs ! m)"
    by (rule interleave_cong) (rule len)
  then have sizes: "interleave n k (\<lambda>m. ?cs ! m) = map length ?P"
    by (simp only: map_interleave)
  have pieces: "split_sizes (interleave n k (\<lambda>m. ?cs ! m)) (concat ?P) = ?P"
    by (simp only: sizes split_sizes_concat)
  have "concat (map (\<lambda>m. ?P ! ((m mod n) * k + m div n)) [0..<n * k]) = x"
    using uninterleave[OF assms(1) B(3)] B(1) by simp
  then show ?thesis
    by (simp only: shards to_replicate_tensor.simps Let_def gathered pieces)
qed

text \<open>
  C3. For a mesh dimension of size \<open>n > 0\<close> and a split factor \<open>k > 0\<close>:
  \<^verbatim>\<open>_split_tensor\<close> of \<^verbatim>\<open>Shard(d)\<close> or \<^verbatim>\<open>StridedShard(d, k)\<close> gives \<open>n\<close> chunks, and
  \<^verbatim>\<open>_to_replicate_tensor\<close> applied to these chunks, gathered in mesh order, gives
  back the tensor.
\<close>

theorem shard_then_replicate_round_trip:
  assumes "0 < n" and "0 < k"
  shows "(\<exists>shards. split_tensor (Shard d) x n = Some shards \<and> length shards = n
            \<and> to_replicate_tensor (Shard d) shards n (length x) = Some x)
       \<and> (\<exists>shards. split_tensor (StridedShard d k) x n = Some shards \<and> length shards = n
            \<and> to_replicate_tensor (StridedShard d k) shards n (length x) = Some x)"
proof (intro conjI)
  show "\<exists>shards. split_tensor (Shard d) x n = Some shards \<and> length shards = n
            \<and> to_replicate_tensor (Shard d) shards n (length x) = Some x"
    using split_sizes_chunks[OF assms(1), of x] by simp
next
  have "split_tensor (StridedShard d k) x n = Some (the (split_tensor (StridedShard d k) x n))"
    by (simp add: Let_def)
  moreover have "length (the (split_tensor (StridedShard d k) x n)) = n"
    by (simp add: Let_def)
  ultimately show "\<exists>shards. split_tensor (StridedShard d k) x n = Some shards \<and> length shards = n
            \<and> to_replicate_tensor (StridedShard d k) shards n (length x) = Some x"
    using strided_round_trip[OF assms, of d x] by blast
qed

theorem shard_then_replicate_round_trip_witness:
  "split_tensor (StridedShard 0 2) [0, 1, 2, 3, 4, 5, 6, 7 :: nat] 4
     = Some [[0, 4], [1, 5], [2, 6], [3, 7]]
   \<and> to_replicate_tensor (StridedShard 0 2) [[0, 4], [1, 5], [2, 6], [3, 7 :: nat]] 4 8
     = Some [0, 1, 2, 3, 4, 5, 6, 7]
   \<and> split_tensor (StridedShard 0 2) [0, 1, 2, 3, 4, 5, 6, 7 :: nat] 2
     = Some [[0, 1, 4, 5], [2, 3, 6, 7]]
   \<and> split_tensor (Shard 0) [0, 1, 2, 3, 4, 5, 6, 7 :: nat] 4
     = Some [[0, 1], [2, 3], [4, 5], [6, 7]]"
proof -
  have a: "split_tensor (StridedShard 0 2) [0, 1, 2, 3, 4, 5, 6, 7 :: nat] 4
             = Some [[0, 4], [1, 5], [2, 6], [3, 7]]"
    by code_simp
  have b: "split_tensor (StridedShard 0 2) [0, 1, 2, 3, 4, 5, 6, 7 :: nat] 2
             = Some [[0, 1, 4, 5], [2, 3, 6, 7]]"
    by code_simp
  have c: "split_tensor (Shard 0) [0, 1, 2, 3, 4, 5, 6, 7 :: nat] 4
             = Some [[0, 1], [2, 3], [4, 5], [6, 7]]"
    by code_simp
  have l: "length [0, 1, 2, 3, 4, 5, 6, 7 :: nat] = 8" by simp
  have "(0::nat) < 4" "(0::nat) < 2" by simp_all
  from shard_then_replicate_round_trip[OF this, of 0 "[0, 1, 2, 3, 4, 5, 6, 7 :: nat]"]
  have "to_replicate_tensor (StridedShard 0 2) [[0, 4], [1, 5], [2, 6], [3, 7 :: nat]] 4 8
          = Some [0, 1, 2, 3, 4, 5, 6, 7]"
    unfolding a l by simp
  with a b c show ?thesis by simp
qed

subsection \<open>One dimension divided over one mesh dimension\<close>


lemma local_shard_offset_0 [simp]: "local_shard_offset sz n 0 = 0"
  by (simp add: local_shard_offset_def)








subsection \<open>Slices and local shards\<close>




lemma length_shape_step [simp]: "length (shape_step p n c cur) = length cur"
  by (simp add: shape_step_def split: option.splits)

lemma length_offset_step [simp]: "length (offset_step p n c cur off) = length off"
  by (simp add: offset_step_def split: option.splits)

lemma length_shape_steps [simp]: "length (shape_steps cur ps ns cs) = length cur"
  by (induction cur ps ns cs rule: shape_steps.induct) simp_all

lemma length_offset_steps [simp]: "length (offset_steps cur off ps ns cs) = length off"
  by (induction cur off ps ns cs rule: offset_steps.induct) simp_all













subsection \<open>The slices of the ranks\<close>














end
